theory Spec2Isabelle
  imports Main "HOL-Library.Word"
begin

unbundle bit_operations_syntax

chapter \<open>ConDaLF client: a shallow embedding of the C sources\<close>

text \<open>
  The target is a 32-bit platform: \<open>size_t\<close>, \<open>unsigned\<close>, \<open>uint32_t\<close> and data pointers
  are \<open>32 word\<close>; \<open>int\<close> return codes are HOL integers holding \<open>0\<close>, a positive count or
  a negated errno value.
\<close>

type_synonym size_t = "32 word"

abbreviation ENOENT :: int where "ENOENT \<equiv> 2"
abbreviation EAGAIN :: int where "EAGAIN \<equiv> 11"
abbreviation ENOMEM :: int where "ENOMEM \<equiv> 12"
abbreviation EINVAL :: int where "EINVAL \<equiv> 22"
abbreviation ENOSPC :: int where "ENOSPC \<equiv> 28"
abbreviation ENODATA :: int where "ENODATA \<equiv> 61"
abbreviation ENOBUFS :: int where "ENOBUFS \<equiv> 105"

section \<open>Publisher driver (publisher.c)\<close>

text \<open>
  A transfer job carries its file descriptor and its completion callback (\<open>None\<close> for a
  \<open>NULL\<close> callback; callbacks are identified by a number). The transport's \<open>net_send\<close> is
  outside the repository: \<open>net k\<close> is what its \<open>k\<close>-th call returns. The world of the
  publisher records how many calls of \<open>net_send\<close> were made and which callbacks ran with
  which status.
\<close>

record transfer_job =
  job_fd :: int
  job_cb :: "nat option"

record publ_t =
  retry_cnt :: "32 word"

record pub_world =
  net_calls :: nat
  cb_calls :: "(nat \<times> int) list"

text \<open>
  The loop \<open>do { res = net_send(..); } while (res < 0 && retry--);\<close> of both
  \<open>_pub_exec_snd_job\<close> and \<open>_pub_send\<close>: \<open>i\<close> is the index of the next call of \<open>net_send\<close>,
  the result is the last return value and the index after the last call.
\<close>

function snd_loop :: "(nat \<Rightarrow> int) \<Rightarrow> nat \<Rightarrow> 32 word \<Rightarrow> int \<times> nat" where
  "snd_loop net i retry =
     (let res = net i in
      if res < 0 \<and> retry \<noteq> 0 then snd_loop net (Suc i) (retry - 1) else (res, Suc i))"
  by pat_completeness auto
termination
  by (relation "measure (\<lambda>(net, i, retry). unat retry)") (auto simp: measure_unat)

declare snd_loop.simps [simp del]

definition pub_exec_snd_job ::
  "(nat \<Rightarrow> int) \<Rightarrow> publ_t \<Rightarrow> transfer_job option \<Rightarrow> pub_world \<Rightarrow> pub_world" where
  "pub_exec_snd_job net pub jobp w =
     (case jobp of
        None \<Rightarrow> w
      | Some job \<Rightarrow>
          (case snd_loop net (net_calls w) (retry_cnt pub) of (res, calls) \<Rightarrow>
             (let w1 = w\<lparr>net_calls := calls\<rparr> in
              case job_cb job of
                None \<Rightarrow> w1
              | Some c \<Rightarrow> w1\<lparr>cb_calls := cb_calls w1 @ [(c, if res > 0 then 0 else res)]\<rparr>)))"

definition pub_send ::
  "(nat \<Rightarrow> int) \<Rightarrow> publ_t \<Rightarrow> transfer_job \<Rightarrow> pub_world \<Rightarrow> int \<times> pub_world" where
  "pub_send net pub job w =
     (case snd_loop net (net_calls w) (retry_cnt pub) of (res, calls) \<Rightarrow>
        (let w1 = w\<lparr>net_calls := calls\<rparr>;
             w2 = (case job_cb job of
                     Some c \<Rightarrow> if res \<ge> 0 then w1\<lparr>cb_calls := cb_calls w1 @ [(c, res)]\<rparr> else w1
                   | None \<Rightarrow> w1)
         in (if res > 0 then 0 else res, w2)))"


section \<open>The file system and the C library, as the data pool sees them\<close>

text \<open>
  The virtual file system of the platform is outside the repository. Its model: the
  existing directories, the absolute paths of the files (in the order in which a
  directory is read), whether \<open>vfs_readdir\<close> reports entry names with a leading \<open>/\<close>
  (some back ends do, and the pool code strips it), an optional failure of \<open>vfs_readdir\<close>
  (after how many entries, with which negative code) and, per path, what \<open>vfs_unlink\<close>
  returns when the file system refuses to remove it (\<open>0\<close> when it does not refuse).
  A directory stream is the list of entry names read at \<open>vfs_opendir\<close>.
\<close>

record vfs =
  vdirs :: "string list"
  vfiles :: "string list"
  lead_slash :: bool
  readdir_fail :: "(nat \<times> int) option"
  unlink_res :: "string \<Rightarrow> int"

definition dir_entries :: "vfs \<Rightarrow> string \<Rightarrow> string list" where
  "dir_entries fs dir =
     map (drop (length dir + 1))
       (filter (\<lambda>p. take (length dir + 1) p = dir @ ''/'' \<and>
                     drop (length dir + 1) p \<noteq> [] \<and>
                     CHR ''/'' \<notin> set (drop (length dir + 1) p)) (vfiles fs))"

text \<open>\<open>vfs_opendir\<close> with the stream it opens: the return code, the entry names that
  \<open>vfs_readdir\<close> will deliver with return value 1, and its return value after them.\<close>

definition vfs_opendir :: "vfs \<Rightarrow> string \<Rightarrow> int \<times> string list \<times> int" where
  "vfs_opendir fs dir =
     (if dir \<in> set (vdirs fs) then
        (let names = map (\<lambda>n. if lead_slash fs then CHR ''/'' # n else n) (dir_entries fs dir)
         in case readdir_fail fs of
              None \<Rightarrow> (0, names, 0)
            | Some (k, e) \<Rightarrow> (0, take k names, e))
      else (- ENOENT, [], 0))"

definition vfs_unlink :: "vfs \<Rightarrow> string \<Rightarrow> int \<times> vfs" where
  "vfs_unlink fs path =
     (if unlink_res fs path \<noteq> 0 then (unlink_res fs path, fs)
      else if path \<in> set (vfiles fs) then (0, fs\<lparr>vfiles := removeAll path (vfiles fs)\<rparr>)
      else (- ENOENT, fs))"

definition vfs_rename :: "vfs \<Rightarrow> string \<Rightarrow> string \<Rightarrow> int \<times> vfs" where
  "vfs_rename fs from_path to_path =
     (if from_path \<in> set (vfiles fs) then
        (0, fs\<lparr>vfiles := map (\<lambda>p. if p = from_path then to_path else p)
                            (removeAll to_path (vfiles fs))\<rparr>)
      else (- ENOENT, fs))"

text \<open>
  \<open>strtoul(s, &endptr, 16)\<close> of the C library (\<open>unsigned long\<close> has 32 bits): white space
  is skipped, then an optional sign and an optional \<open>0x\<close> or \<open>0X\<close> are read, then the
  longest run of hexadecimal digits. The result is the value (\<open>ULONG_MAX\<close> when it does
  not fit, negated modulo \<open>2^32\<close> after a minus sign) and the text at \<open>endptr\<close>; without
  any digit nothing is converted and \<open>endptr\<close> is the start of the text.
\<close>

definition isspace :: "char \<Rightarrow> bool" where
  "isspace c = (c = CHR '' '' \<or> c = CHR 0x09 \<or> c = CHR 0x0A \<or> c = CHR 0x0B \<or>
               c = CHR 0x0C \<or> c = CHR 0x0D)"

definition hexval :: "char \<Rightarrow> nat option" where
  "hexval c =
     (let n = of_char c :: nat in
      if 48 \<le> n \<and> n \<le> 57 then Some (n - 48)
      else if 65 \<le> n \<and> n \<le> 70 then Some (n - 55)
      else if 97 \<le> n \<and> n \<le> 102 then Some (n - 87)
      else None)"

fun scan_hex :: "nat \<Rightarrow> bool \<Rightarrow> string \<Rightarrow> nat \<times> bool \<times> string" where
  "scan_hex acc any [] = (acc, any, [])"
| "scan_hex acc any (c # cs) =
     (case hexval c of
        None \<Rightarrow> (acc, any, c # cs)
      | Some d \<Rightarrow> scan_hex (acc * 16 + d) True cs)"

definition strtoul16 :: "string \<Rightarrow> 32 word \<times> string" where
  "strtoul16 s =
     (let s1 = dropWhile isspace s;
          neg = (case s1 of c # _ \<Rightarrow> c = CHR ''-'' | [] \<Rightarrow> False);
          s2 = (case s1 of c # t \<Rightarrow> if c = CHR ''-'' \<or> c = CHR ''+'' then t else s1 | [] \<Rightarrow> s1);
          s3 = (case s2 of
                  c # x # t \<Rightarrow> if c = CHR ''0'' \<and> (x = CHR ''x'' \<or> x = CHR ''X'') then t else s2
                | _ \<Rightarrow> s2)
      in case scan_hex 0 False s3 of (v, any, rest) \<Rightarrow>
           if \<not> any then (0, s)
           else if v > 0xFFFFFFFF then (0xFFFFFFFF, rest)
           else if neg then (- (of_nat v), rest)
           else (of_nat v, rest))"

text \<open>\<open>printf\<close>'s \<open>%08x\<close> of a 32-bit value: eight lowercase hexadecimal digits.\<close>

definition hexdigit :: "nat \<Rightarrow> char" where
  "hexdigit n = ''0123456789abcdef'' ! n"

definition hex8 :: "32 word \<Rightarrow> string" where
  "hex8 w = map (\<lambda>i. hexdigit (unat (drop_bit (4 * i) w AND 0xF))) [7, 6, 5, 4, 3, 2, 1, 0]"

section \<open>Data pool (data_pool.c)\<close>

definition abs_fname :: "string \<Rightarrow> string \<Rightarrow> string" where
  "abs_fname fname pooldir = pooldir @ ''/'' @ fname"

text \<open>The file name of a directory entry:
  \<open>(*dirent.d_name == '/') ? dirent.d_name + 1 : dirent.d_name\<close>.\<close>

definition entry_fname :: "string \<Rightarrow> string" where
  "entry_fname d_name = (case d_name of c # t \<Rightarrow> if c = CHR ''/'' then t else d_name | [] \<Rightarrow> d_name)"

text \<open>The loop of \<open>_find_file\<close> over the entries that \<open>vfs_readdir\<close> delivers; the state is
  \<open>found\<close> and \<open>*fidp\<close>.\<close>

fun find_loop ::
  "(32 word \<Rightarrow> 32 word \<Rightarrow> bool) \<Rightarrow> string list \<Rightarrow> bool \<times> 32 word \<Rightarrow> bool \<times> 32 word" where
  "find_loop cmpf [] st = st"
| "find_loop cmpf (d # ds) (found, fid0) =
     (case strtoul16 (entry_fname d) of (fid, endptr) \<Rightarrow>
        if endptr \<noteq> [] then find_loop cmpf ds (found, fid0)
        else if cmpf fid fid0 then find_loop cmpf ds (True, fid)
        else find_loop cmpf ds (found, fid0))"

definition find_file ::
  "vfs \<Rightarrow> string \<Rightarrow> 32 word \<Rightarrow> (32 word \<Rightarrow> 32 word \<Rightarrow> bool) \<Rightarrow> int \<times> 32 word" where
  "find_file fs poolpath fid0 cmpf =
     (case vfs_opendir fs poolpath of (res, names, endres) \<Rightarrow>
        if res \<noteq> 0 then (res, fid0)
        else (case find_loop cmpf names (False, fid0) of (found, fid) \<Rightarrow>
                (if endres = 0 \<and> \<not> found then - ENOENT else endres, fid)))"

definition cmpf_older :: "32 word \<Rightarrow> 32 word \<Rightarrow> bool" where
  "cmpf_older a b = (a \<le> b)"

definition cmpf_newer :: "32 word \<Rightarrow> 32 word \<Rightarrow> bool" where
  "cmpf_newer a b = (a \<ge> b)"

definition find_oldest :: "vfs \<Rightarrow> string \<Rightarrow> int \<times> 32 word" where
  "find_oldest fs pooldir = find_file fs pooldir 0xFFFFFFFF cmpf_older"

definition find_newest :: "vfs \<Rightarrow> string \<Rightarrow> int \<times> 32 word" where
  "find_newest fs pooldir = find_file fs pooldir 0 cmpf_newer"

fun drain_loop :: "string \<Rightarrow> string list \<Rightarrow> int \<Rightarrow> vfs \<Rightarrow> int \<times> vfs" where
  "drain_loop pooldir [] endres fs = (endres, fs)"
| "drain_loop pooldir (d # ds) endres fs =
     (case strtoul16 (entry_fname d) of (fid, endptr) \<Rightarrow>
        if endptr \<noteq> [] then drain_loop pooldir ds endres fs
        else (case vfs_unlink fs (abs_fname (entry_fname d) pooldir) of (res, fs') \<Rightarrow>
                if res \<noteq> 0 then (res, fs') else drain_loop pooldir ds endres fs'))"

definition dpool_drain :: "vfs \<Rightarrow> string option \<Rightarrow> int \<times> vfs" where
  "dpool_drain fs pooldirp =
     (case pooldirp of
        None \<Rightarrow> (- EINVAL, fs)
      | Some pooldir \<Rightarrow>
          (case vfs_opendir fs pooldir of (res, names, endres) \<Rightarrow>
             if res \<noteq> 0 then (res, fs) else drain_loop pooldir names endres fs))"

definition dpool_move_file :: "vfs \<Rightarrow> string option \<Rightarrow> string option \<Rightarrow> int \<times> vfs" where
  "dpool_move_file fs pooldirp namep =
     (case (pooldirp, namep) of
        (Some pooldir, Some name) \<Rightarrow>
          (case find_newest fs pooldir of (res, newest) \<Rightarrow>
             if res \<noteq> 0 \<and> res \<noteq> - ENOENT then (res, fs)
             else vfs_rename fs name (pooldir @ ''/'' @ hex8 (newest + 1)))
      | _ \<Rightarrow> (- EINVAL, fs))"

text \<open>\<open>dpool_get_oldest_file\<close>: the return code and what \<open>snprintf\<close> left in \<open>namebuf\<close>
  (\<open>None\<close> when the buffer was not written).\<close>

definition dpool_get_oldest_file ::
  "vfs \<Rightarrow> string option \<Rightarrow> nat \<Rightarrow> int \<times> string option" where
  "dpool_get_oldest_file fs pooldirp buflen =
     (case pooldirp of
        None \<Rightarrow> (- EINVAL, None)
      | Some pooldir \<Rightarrow>
          (case find_oldest fs pooldir of (res, oldest) \<Rightarrow>
             if res \<noteq> 0 then (res, None)
             else (let path = pooldir @ ''/'' @ hex8 oldest;
                       written = (if buflen = 0 then None else Some (take (buflen - 1) path))
                   in if length path \<ge> buflen then (- ENOSPC, written) else (0, written))))"

fun size_loop :: "string list \<Rightarrow> int \<Rightarrow> int" where
  "size_loop [] cnt = cnt"
| "size_loop (d # ds) cnt =
     (case strtoul16 (entry_fname d) of (fid, endptr) \<Rightarrow>
        if endptr \<noteq> [] then size_loop ds cnt else size_loop ds (cnt + 1))"

definition dpool_size :: "vfs \<Rightarrow> string option \<Rightarrow> int" where
  "dpool_size fs pooldirp =
     (case pooldirp of
        None \<Rightarrow> - EINVAL
      | Some pooldir \<Rightarrow>
          (case vfs_opendir fs pooldir of (res, names, endres) \<Rightarrow>
             if res \<noteq> 0 then res
             else if endres \<noteq> 0 then endres
             else size_loop names 0))"


text \<open>
  The test of the three directory loops, \<open>*endptr == '\0'\<close> after \<open>strtoul\<close>: the file
  names that the pool code takes for pool files, with the id it reads from them.
\<close>

definition pool_name :: "string \<Rightarrow> bool" where
  "pool_name fname = (snd (strtoul16 fname) = [])"

definition pool_id :: "string \<Rightarrow> 32 word" where
  "pool_id fname = fst (strtoul16 fname)"

text \<open>The pool file names of the specification: eight lowercase hexadecimal digits.\<close>

definition spec_pool_name :: "string \<Rightarrow> bool" where
  "spec_pool_name fname =
     (length fname = 8 \<and> list_all (\<lambda>c. c \<in> set ''0123456789abcdef'') fname)"


text \<open>The ids of the pool files of a directory, and the paths that \<open>dpool_drain\<close> passes
  to \<open>vfs_unlink\<close> for a list of directory entries.\<close>

definition pool_ids :: "vfs \<Rightarrow> string \<Rightarrow> 32 word list" where
  "pool_ids fs pooldir = map pool_id (filter pool_name (dir_entries fs pooldir))"

definition drain_paths :: "string \<Rightarrow> string list \<Rightarrow> string list" where
  "drain_paths pooldir ds =
     map (\<lambda>n. abs_fname n pooldir) (filter pool_name (map entry_fname ds))"


section \<open>Long term buffer: publication (ltb.c)\<close>

text \<open>
  The process-wide state that the dispatcher thread owns: the file system, the registry of
  LTB instances (from \<open>_ltb_lhead\<close> along \<open>next\<close>), \<open>_nb_files_total\<close>, \<open>_publishing\<close>,
  and the mailbox of the dispatcher (\<open>LTB_QUEUE_MSGQUEUE_LEN\<close> messages). A dispatch unit
  is the handler to run with its argument; for both handlers modelled here the argument is
  the completion callback of the caller (\<open>None\<close> for \<open>NULL\<close>). The environment decides
  whether \<open>malloc\<close> of a dispatch unit succeeds, what \<open>vfs_open\<close> returns for a path and
  what the sender's \<open>send\<close> returns for a file. \<open>ltb_cb_calls\<close> lists the callbacks that
  ran, with their argument.
\<close>

record ltb_t =
  ltb_pooldir :: string
  ltb_sender :: "nat option"

datatype dispatch_unit = Unit_publish "nat option" | Unit_force_publish "nat option"

record ltb_world =
  ltb_fs :: vfs
  ltb_lhead :: "ltb_t list"
  nb_files_total :: "32 word"
  publishing :: bool
  ltb_queue :: "dispatch_unit list"
  ltb_cb_calls :: "(nat \<times> int) list"
  unit_malloc_ok :: bool
  open_res :: "string \<Rightarrow> int"
  send_res :: "nat \<Rightarrow> string \<Rightarrow> int"

abbreviation LTB_QUEUE_MSGQUEUE_LEN :: nat where "LTB_QUEUE_MSGQUEUE_LEN \<equiv> 4"

abbreviation EWOULDBLOCK :: int where "EWOULDBLOCK \<equiv> 11"

definition ltb_dispatch :: "dispatch_unit \<Rightarrow> ltb_world \<Rightarrow> int \<times> ltb_world" where
  "ltb_dispatch unit w =
     (if \<not> unit_malloc_ok w then (- ENOMEM, w)
      else if length (ltb_queue w) < LTB_QUEUE_MSGQUEUE_LEN
        then (0, w\<lparr>ltb_queue := ltb_queue w @ [unit]\<rparr>)
      else (- EWOULDBLOCK, w))"

text \<open>\<open>_ltb_get_first_file\<close>: the return code and, when a file was found, its path and the
  instance it belongs to.\<close>

fun ltb_get_first_file :: "vfs \<Rightarrow> ltb_t list \<Rightarrow> int \<Rightarrow> int \<times> (string \<times> ltb_t) option" where
  "ltb_get_first_file fs [] res = (res, None)"
| "ltb_get_first_file fs (currltb # rest) res =
     (case ltb_sender currltb of
        None \<Rightarrow> ltb_get_first_file fs rest res
      | Some _ \<Rightarrow>
          (case dpool_get_oldest_file fs (Some (ltb_pooldir currltb)) 64 of (r, namebuf) \<Rightarrow>
             if r < 0 then ltb_get_first_file fs rest r
             else (r, Some (case namebuf of Some f \<Rightarrow> f | None \<Rightarrow> [], currltb))))"

definition publish_end :: "nat option \<Rightarrow> int \<Rightarrow> ltb_world \<Rightarrow> int \<times> ltb_world" where
  "publish_end arg res w =
     (let w1 = (case arg of
                  Some c \<Rightarrow> w\<lparr>ltb_cb_calls := ltb_cb_calls w @ [(c, res)]\<rparr>
                | None \<Rightarrow> w)
      in (res, w1\<lparr>publishing := False\<rparr>))"

definition ltb_publish :: "nat option \<Rightarrow> ltb_world \<Rightarrow> int \<times> ltb_world" where
  "ltb_publish arg w0 =
     (let w = w0\<lparr>publishing := True\<rparr> in
      case ltb_get_first_file (ltb_fs w) (ltb_lhead w) (- ENOENT) of
        (res, None) \<Rightarrow> publish_end arg (if res = - ENOENT then 0 else res) w
      | (res, Some (fname, ltb)) \<Rightarrow>
          if res < 0 then publish_end arg (if res = - ENOENT then 0 else res) w
          else if open_res w fname < 0 then publish_end arg (open_res w fname) w
          else (case ltb_sender ltb of
                  None \<Rightarrow> publish_end arg (- EINVAL) w
                | Some drv \<Rightarrow>
                    if send_res w drv fname < 0 then publish_end arg (send_res w drv fname) w
                    else (case vfs_unlink (ltb_fs w) fname of (ures, fs') \<Rightarrow>
                            (let w1 = (if ures < 0 then w\<lparr>ltb_fs := fs'\<rparr>
                                       else w\<lparr>ltb_fs := fs', nb_files_total := nb_files_total w - 1\<rparr>)
                             in case ltb_dispatch (Unit_publish None) w1 of (dres, w2) \<Rightarrow>
                                  if dres < 0 then publish_end arg dres w2 else (0, w2)))))"

definition force_publish :: "nat option \<Rightarrow> ltb_world \<Rightarrow> ltb_world" where
  "force_publish arg w = (if \<not> publishing w then snd (ltb_publish arg w) else w)"

definition ltb_force_publish :: "nat option \<Rightarrow> ltb_world \<Rightarrow> int \<times> ltb_world" where
  "ltb_force_publish cb w = ltb_dispatch (Unit_force_publish cb) w"

text \<open>One turn of \<open>_ltb_dispatcher\<close>: the oldest message of the mailbox is received and its
  handler runs.\<close>

definition ltb_dispatcher_step :: "ltb_world \<Rightarrow> ltb_world" where
  "ltb_dispatcher_step w =
     (case ltb_queue w of
        [] \<Rightarrow> w
      | unit # rest \<Rightarrow>
          (let w1 = w\<lparr>ltb_queue := rest\<rparr> in
           case unit of
             Unit_publish arg \<Rightarrow> snd (ltb_publish arg w1)
           | Unit_force_publish arg \<Rightarrow> force_publish arg w1))"


section \<open>Memory\<close>

text \<open>
  Heap objects are addressed by 32-bit pointers, \<open>0\<close> being \<open>NULL\<close>. A block is a C string,
  an encoding buffer (its size in bytes and how many bytes an encoder has written at its
  start), the array of a record ring (its number of slots) or some other object. The
  allocator hands out the addresses \<open>h_brk\<close>, \<open>h_brk + 1\<close>, ... ; \<open>h_plan\<close> tells which of the
  next allocations fail (\<open>False\<close>), all of them succeeding once the plan is used up.
  \<open>h_junk\<close> is the indeterminate value read from an uninitialised local variable.
  Reading the string at a pointer that holds none is undefined in C; the model reads the
  empty string there, and freeing a pointer that holds no block changes nothing.
\<close>

type_synonym addr = "32 word"

datatype block = Str string | Buf nat nat | Arr nat | Obj

record heap =
  h_mem :: "addr \<rightharpoonup> block"
  h_brk :: addr
  h_plan :: "bool list"
  h_junk :: size_t

definition malloc :: "block \<Rightarrow> heap \<Rightarrow> addr \<times> heap" where
  "malloc b h =
     (case h_plan h of
        False # plan \<Rightarrow> (0, h\<lparr>h_plan := plan\<rparr>)
      | _ \<Rightarrow> (h_brk h, h\<lparr>h_mem := (h_mem h)(h_brk h \<mapsto> b), h_brk := h_brk h + 1,
                          h_plan := tl (h_plan h)\<rparr>))"

definition free :: "addr \<Rightarrow> heap \<Rightarrow> heap" where
  "free p h = (if p = 0 then h else h\<lparr>h_mem := (h_mem h)(p := None)\<rparr>)"

definition cstr :: "heap \<Rightarrow> addr \<Rightarrow> string" where
  "cstr h p = (case h_mem h p of Some (Str s) \<Rightarrow> s | _ \<Rightarrow> [])"

definition strdup :: "addr \<Rightarrow> heap \<Rightarrow> addr \<times> heap" where
  "strdup p h = malloc (Str (cstr h p)) h"

section \<open>Records (record.h)\<close>

text \<open>
  \<open>rec_val\<close> is the union of the record: the \<open>u32\<close> value, the bits of the \<open>i32\<close> value or
  the pointer \<open>str\<close>. The name is a borrowed pointer to a long-lived string which the code
  only reads; the model holds the string itself.
\<close>

record timex_t =
  seconds :: "32 word"
  microseconds :: "32 word"

record record_t =
  rec_name :: string
  rec_timestamp :: timex_t
  rec_val :: "32 word"
  rec_type :: "8 word"
  rec_unit :: "8 word"

abbreviation RECORDTYPE_EMPTY :: "8 word" where "RECORDTYPE_EMPTY \<equiv> 0"
abbreviation RECORDTYPE_U32 :: "8 word" where "RECORDTYPE_U32 \<equiv> 1"
abbreviation RECORDTYPE_I32 :: "8 word" where "RECORDTYPE_I32 \<equiv> 2"
abbreviation RECORDTYPE_STRING :: "8 word" where "RECORDTYPE_STRING \<equiv> 3"
abbreviation RECORDUNIT_NONE :: "8 word" where "RECORDUNIT_NONE \<equiv> 0"
abbreviation RECORDUNIT_ENUMSIZE :: "8 word" where "RECORDUNIT_ENUMSIZE \<equiv> 59"

text \<open>The zero-initialised record \<open>{ 0 }\<close>.\<close>

definition record_zero :: record_t where
  "record_zero = \<lparr>rec_name = [], rec_timestamp = \<lparr>seconds = 0, microseconds = 0\<rparr>,
                  rec_val = 0, rec_type = 0, rec_unit = 0\<rparr>"

record record_base_t =
  base_name :: addr

text \<open>\<open>record_move(to, from)\<close>: the new values of \<open>*to\<close> and \<open>*from\<close>.\<close>

definition record_move :: "record_t \<Rightarrow> record_t \<times> record_t" where
  "record_move from_rec =
     (from_rec, if rec_type from_rec = RECORDTYPE_STRING then from_rec\<lparr>rec_val := 0\<rparr> else from_rec)"

definition record_copy :: "record_t \<Rightarrow> heap \<Rightarrow> int \<times> record_t \<times> heap" where
  "record_copy from_rec h =
     (if rec_type from_rec = RECORDTYPE_STRING then
        (case strdup (rec_val from_rec) h of (p, h') \<Rightarrow>
           (if p = 0 then - ENOMEM else 0, from_rec\<lparr>rec_val := p\<rparr>, h'))
      else (0, from_rec, h))"

definition record_freedata :: "record_t \<Rightarrow> heap \<Rightarrow> record_t \<times> heap" where
  "record_freedata r h =
     (r\<lparr>rec_val := 0\<rparr>, if rec_type r = RECORDTYPE_STRING then free (rec_val r) h else h)"

definition record_base_copy :: "record_base_t \<Rightarrow> heap \<Rightarrow> int \<times> record_base_t \<times> heap" where
  "record_base_copy from_base h =
     (if base_name from_base \<noteq> 0 then
        (case strdup (base_name from_base) h of (p, h') \<Rightarrow>
           (if p = 0 then - ENOMEM else 0, \<lparr>base_name = p\<rparr>, h'))
      else (0, \<lparr>base_name = 0\<rparr>, h))"

definition record_base_freedata :: "record_base_t \<Rightarrow> heap \<Rightarrow> heap" where
  "record_base_freedata b h = free (base_name b) h"

section \<open>The CBOR encoder library, by its byte accounting\<close>

text \<open>
  The QCBOR library is outside the repository. Its encode context is modelled by what
  decides the results that \<open>senml_enc.c\<close> reads back: the output storage (pointer and size;
  a \<open>NULL\<close> pointer only counts bytes), the number of bytes put so far, the sticky flag
  that an item did not fit, the stack of open arrays and maps with their item counts (the
  top level last), and the error code of the context. Item sizes are those of CBOR: a head
  of 1, 2, 3, 5 or 9 bytes according to its argument, followed by the bytes of a text; a
  double takes 9 bytes. The head of an array or map is inserted when it is closed.
\<close>

datatype qcbor_error =
    QCBOR_SUCCESS
  | QCBOR_ERR_BUFFER_TOO_SMALL
  | QCBOR_ERR_ARRAY_NESTING_TOO_DEEP
  | QCBOR_ERR_ARRAY_TOO_LONG
  | QCBOR_ERR_TOO_MANY_CLOSES
  | QCBOR_ERR_CLOSE_MISMATCH
  | QCBOR_ERR_ARRAY_OR_MAP_STILL_OPEN

record useful_buf =
  ub_ptr :: addr
  ub_len :: size_t

record qcbor_ctx =
  out_buf :: useful_buf
  data_len :: nat
  out_err :: bool
  nesting :: "(bool \<times> nat) list"
  u_error :: qcbor_error

abbreviation QCBOR_MAX_ARRAY_NESTING :: nat where "QCBOR_MAX_ARRAY_NESTING \<equiv> 15"
abbreviation QCBOR_MAX_ITEMS_IN_ARRAY :: nat where "QCBOR_MAX_ITEMS_IN_ARRAY \<equiv> 65534"

definition qcbor_init :: "useful_buf \<Rightarrow> qcbor_ctx" where
  "qcbor_init storage =
     \<lparr>out_buf = storage, data_len = 0, out_err = False, nesting = [(False, 0)],
      u_error = QCBOR_SUCCESS\<rparr>"

definition cbor_head_len :: "nat \<Rightarrow> nat" where
  "cbor_head_len n =
     (if n < 24 then 1 else if n < 256 then 2 else if n < 65536 then 3
      else if n < 4294967296 then 5 else 9)"

definition cbor_int_len :: "int \<Rightarrow> nat" where
  "cbor_int_len i = cbor_head_len (nat (if i < 0 then - i - 1 else i))"

text \<open>Appending \<open>n\<close> bytes to the output: nothing happens after a failure, and bytes that do
  not fit set the failure flag.\<close>

definition out_append :: "nat \<Rightarrow> qcbor_ctx \<Rightarrow> qcbor_ctx" where
  "out_append n c =
     (if out_err c then c
      else if n > unat (ub_len (out_buf c)) - data_len c then c\<lparr>out_err := True\<rparr>
      else c\<lparr>data_len := data_len c + n\<rparr>)"

definition nesting_increment :: "qcbor_ctx \<Rightarrow> qcbor_ctx" where
  "nesting_increment c =
     (case nesting c of
        [] \<Rightarrow> c
      | (m, cnt) # rest \<Rightarrow>
          if 1 \<ge> QCBOR_MAX_ITEMS_IN_ARRAY - cnt then c\<lparr>u_error := QCBOR_ERR_ARRAY_TOO_LONG\<rparr>
          else c\<lparr>nesting := (m, cnt + 1) # rest, u_error := QCBOR_SUCCESS\<rparr>)"

text \<open>Adding one item of \<open>n\<close> bytes (an integer, a text with its head, a double).\<close>

definition qcbor_add :: "nat \<Rightarrow> qcbor_ctx \<Rightarrow> qcbor_ctx" where
  "qcbor_add n c = (if u_error c = QCBOR_SUCCESS then nesting_increment (out_append n c) else c)"

definition qcbor_open :: "bool \<Rightarrow> qcbor_ctx \<Rightarrow> qcbor_ctx" where
  "qcbor_open is_map c =
     (let c1 = nesting_increment c in
      if u_error c1 \<noteq> QCBOR_SUCCESS then c1
      else if length (nesting c1) > QCBOR_MAX_ARRAY_NESTING
        then c1\<lparr>u_error := QCBOR_ERR_ARRAY_NESTING_TOO_DEEP\<rparr>
      else c1\<lparr>nesting := (is_map, 0) # nesting c1\<rparr>)"

definition qcbor_close :: "bool \<Rightarrow> qcbor_ctx \<Rightarrow> qcbor_ctx" where
  "qcbor_close is_map c =
     (if u_error c \<noteq> QCBOR_SUCCESS then c
      else (case nesting c of
              (m, cnt) # outer # rest \<Rightarrow>
                if m \<noteq> is_map then c\<lparr>u_error := QCBOR_ERR_CLOSE_MISMATCH\<rparr>
                else (out_append (cbor_head_len (if m then cnt div 2 else cnt)) c)
                       \<lparr>nesting := outer # rest\<rparr>
            | _ \<Rightarrow> c\<lparr>u_error := QCBOR_ERR_TOO_MANY_CLOSES\<rparr>))"

definition qcbor_get_error_state :: "qcbor_ctx \<Rightarrow> qcbor_error \<times> qcbor_ctx" where
  "qcbor_get_error_state c =
     (if out_err c then (QCBOR_ERR_BUFFER_TOO_SMALL, c\<lparr>u_error := QCBOR_ERR_BUFFER_TOO_SMALL\<rparr>)
      else (u_error c, c))"

text \<open>\<open>QCBOREncode_Finish\<close>: the error code, the length of the encoded output when there
  is no error, and the context.\<close>

definition qcbor_finish :: "qcbor_ctx \<Rightarrow> qcbor_error \<times> nat option \<times> qcbor_ctx" where
  "qcbor_finish c =
     (case qcbor_get_error_state c of (e, c1) \<Rightarrow>
        if e \<noteq> QCBOR_SUCCESS then (e, None, c1)
        else if length (nesting c1) > 1 then (QCBOR_ERR_ARRAY_OR_MAP_STILL_OPEN, None, c1)
        else (QCBOR_SUCCESS, Some (data_len c1), c1))"

text \<open>The \<open>AddXToMapN\<close> calls add the integer label and then the value.\<close>

definition add_text_to_map_n :: "int \<Rightarrow> nat \<Rightarrow> qcbor_ctx \<Rightarrow> qcbor_ctx" where
  "add_text_to_map_n label len c =
     qcbor_add (cbor_head_len len + len) (qcbor_add (cbor_int_len label) c)"

definition add_double_to_map_n :: "int \<Rightarrow> qcbor_ctx \<Rightarrow> qcbor_ctx" where
  "add_double_to_map_n label c = qcbor_add 9 (qcbor_add (cbor_int_len label) c)"

definition add_uint64_to_map_n :: "int \<Rightarrow> nat \<Rightarrow> qcbor_ctx \<Rightarrow> qcbor_ctx" where
  "add_uint64_to_map_n label v c = qcbor_add (cbor_head_len v) (qcbor_add (cbor_int_len label) c)"

definition add_int64_to_map_n :: "int \<Rightarrow> int \<Rightarrow> qcbor_ctx \<Rightarrow> qcbor_ctx" where
  "add_int64_to_map_n label v c = qcbor_add (cbor_int_len v) (qcbor_add (cbor_int_len label) c)"

section \<open>SenML encoder (senml_enc.c)\<close>

abbreviation SENMLKEY_bn :: int where "SENMLKEY_bn \<equiv> - 2"
abbreviation SENMLKEY_n :: int where "SENMLKEY_n \<equiv> 0"
abbreviation SENMLKEY_u :: int where "SENMLKEY_u \<equiv> 1"
abbreviation SENMLKEY_v :: int where "SENMLKEY_v \<equiv> 2"
abbreviation SENMLKEY_t :: int where "SENMLKEY_t \<equiv> 6"

definition senml_units :: "string list" where
  "senml_units =
     ['''', ''m'', ''kg'', ''g'', ''s'', ''A'', ''K'', ''cd'', ''mol'', ''Hz'', ''rad'', ''sr'',
      ''N'', ''Pa'', ''J'', ''W'', ''C'', ''V'', ''F'', ''Ohm'', ''S'', ''Wb'', ''T'', ''H'',
      ''Cel'', ''lm'', ''lx'', ''Bq'', ''Gy'', ''Sv'', ''kat'', ''m2'', ''m3'', ''l'', ''m/s'',
      ''m/s2'', ''m3/s'', ''l/s'', ''W/m2'', ''cd/m2'', ''bit'', ''bit/s'', ''lat'', ''lon'',
      ''pH'', ''dB'', ''dBW'', ''Bspl'', ''count'', ''/'', ''%'', ''%RH'', ''%EL'', ''EL'',
      ''1/s'', ''1/min'', ''beat/min'', ''beats'', ''S/m'']"

record senml_enc_t =
  enc_buf :: useful_buf
  cbor_ctx :: qcbor_ctx

text \<open>After a call of the encoder the memory of a real output buffer holds what the
  context has put there.\<close>

definition enc_store :: "qcbor_ctx \<Rightarrow> heap \<Rightarrow> heap" where
  "enc_store c h =
     (if ub_ptr (out_buf c) = 0 then h
      else h\<lparr>h_mem := (h_mem h)(ub_ptr (out_buf c) \<mapsto>
                 Buf (unat (ub_len (out_buf c))) (data_len c))\<rparr>)"

definition qcbor_result :: "qcbor_error \<Rightarrow> int" where
  "qcbor_result e =
     (case e of
        QCBOR_SUCCESS \<Rightarrow> 0
      | QCBOR_ERR_BUFFER_TOO_SMALL \<Rightarrow> - ENOSPC
      | _ \<Rightarrow> - EINVAL)"

definition senml_enc_init ::
  "addr \<Rightarrow> size_t \<Rightarrow> record_base_t option \<Rightarrow> heap \<Rightarrow> int \<times> senml_enc_t \<times> heap" where
  "senml_enc_init buf sz base h =
     (let ub = \<lparr>ub_ptr = buf, ub_len = sz\<rparr>;
          c1 = qcbor_open False (qcbor_init ub)
      in case base of
           Some b \<Rightarrow>
             if base_name b \<noteq> 0 then
               (let c2 = qcbor_close True
                           (add_text_to_map_n SENMLKEY_bn (length (cstr h (base_name b)))
                              (qcbor_open True c1))
                in case qcbor_get_error_state c2 of (e, c3) \<Rightarrow>
                     (qcbor_result e, \<lparr>enc_buf = ub, cbor_ctx = c3\<rparr>, enc_store c3 h))
             else (0, \<lparr>enc_buf = ub, cbor_ctx = c1\<rparr>, enc_store c1 h)
         | None \<Rightarrow> (0, \<lparr>enc_buf = ub, cbor_ctx = c1\<rparr>, enc_store c1 h))"

definition senml_enc_put :: "senml_enc_t \<Rightarrow> record_t \<Rightarrow> heap \<Rightarrow> int \<times> senml_enc_t \<times> heap" where
  "senml_enc_put enc r h =
     (let c1 = add_double_to_map_n SENMLKEY_t
                 (add_text_to_map_n SENMLKEY_n (length (rec_name r))
                    (qcbor_open True (cbor_ctx enc)))
      in if rec_unit r \<noteq> RECORDUNIT_NONE \<and> rec_unit r \<ge> RECORDUNIT_ENUMSIZE
         then (- EINVAL, enc\<lparr>cbor_ctx := c1\<rparr>, enc_store c1 h)
         else
          (let c2 = (if rec_unit r \<noteq> RECORDUNIT_NONE
                     then add_text_to_map_n SENMLKEY_u
                            (length (senml_units ! unat (rec_unit r))) c1
                     else c1)
           in if rec_type r = RECORDTYPE_U32 \<or> rec_type r = RECORDTYPE_I32 \<or>
                 rec_type r = RECORDTYPE_STRING
              then
                (let c3 = (if rec_type r = RECORDTYPE_U32
                             then add_uint64_to_map_n SENMLKEY_v (unat (rec_val r)) c2
                           else if rec_type r = RECORDTYPE_I32
                             then add_int64_to_map_n SENMLKEY_v (sint (rec_val r)) c2
                           else add_text_to_map_n SENMLKEY_v (length (cstr h (rec_val r))) c2)
                 in case qcbor_get_error_state (qcbor_close True c3) of (e, c4) \<Rightarrow>
                      (qcbor_result e, enc\<lparr>cbor_ctx := c4\<rparr>, enc_store c4 h))
              else (- EINVAL, enc\<lparr>cbor_ctx := c2\<rparr>, enc_store c2 h)))"

text \<open>\<open>senml_enc_close\<close>: the return code and the value stored in \<open>*enc_len\<close> (\<open>None\<close> when
  nothing is stored). When the output did not fit, the length is read from the
  uninitialised \<open>outb\<close>.\<close>

definition senml_enc_close :: "senml_enc_t \<Rightarrow> heap \<Rightarrow> int \<times> size_t option \<times> senml_enc_t \<times> heap" where
  "senml_enc_close enc h =
     (case qcbor_finish (qcbor_close False (cbor_ctx enc)) of (e, len, c) \<Rightarrow>
        (case e of
           QCBOR_SUCCESS \<Rightarrow>
             (0, Some (of_nat (case len of Some n \<Rightarrow> n | None \<Rightarrow> 0)), enc\<lparr>cbor_ctx := c\<rparr>,
              enc_store c h)
         | QCBOR_ERR_BUFFER_TOO_SMALL \<Rightarrow>
             (- ENOSPC, Some (h_junk h), enc\<lparr>cbor_ctx := c\<rparr>, enc_store c h)
         | _ \<Rightarrow> (- EINVAL, None, enc\<lparr>cbor_ctx := c\<rparr>, enc_store c h)))"

section \<open>Peek ring buffer and record serializer (rec_serial.c)\<close>

text \<open>
  \<open>cb_a\<close> is the pointer to the array of the ring and \<open>cb_mem\<close> the array it points to.
  Slots are addressed by \<open>index & (len - 1)\<close>, which is below \<open>len\<close> for every index when
  \<open>len\<close> is not 0, so that with an array of \<open>len\<close> slots no access is out of range.
\<close>

record peekcb_t =
  cb_a :: addr
  cb_mem :: "record_t list"
  cb_len :: size_t
  cb_ri :: size_t
  cb_wi :: size_t

definition peekcb_init :: "addr \<Rightarrow> size_t \<Rightarrow> peekcb_t" where
  "peekcb_init a len =
     \<lparr>cb_a = a, cb_mem = replicate (unat len) record_zero, cb_len = len, cb_ri = 0, cb_wi = 0\<rparr>"

definition peekcb_fill :: "peekcb_t \<Rightarrow> size_t" where
  "peekcb_fill pcb = cb_wi pcb - cb_ri pcb"

definition ring_slot :: "peekcb_t \<Rightarrow> size_t \<Rightarrow> nat" where
  "ring_slot pcb i = unat (i AND (cb_len pcb - 1))"

text \<open>\<open>peekcb_put(pcb, a, len)\<close> with the \<open>len\<close> records of \<open>a\<close>: the number written and the
  ring.\<close>

definition peekcb_put :: "peekcb_t \<Rightarrow> record_t list \<Rightarrow> size_t \<times> peekcb_t" where
  "peekcb_put pcb a =
     (let empty = cb_len pcb - (cb_wi pcb - cb_ri pcb);
          len = (of_nat (length a) :: size_t);
          to_write = (if len > empty then empty else len)
      in case fold (\<lambda>r (m, wi). (m[ring_slot pcb wi := r], wi + 1))
                (take (unat to_write) a) (cb_mem pcb, cb_wi pcb) of
           (m, wi) \<Rightarrow> (to_write, pcb\<lparr>cb_mem := m, cb_wi := wi\<rparr>))"

text \<open>\<open>peekcb_get(pcb, a, len)\<close>: the number read, the records stored into \<open>a\<close>, and the
  ring.\<close>

definition peekcb_get :: "peekcb_t \<Rightarrow> size_t \<Rightarrow> size_t \<times> record_t list \<times> peekcb_t" where
  "peekcb_get pcb len =
     (let fill = cb_wi pcb - cb_ri pcb;
          to_read = (if len > fill then fill else len)
      in (to_read,
          map (\<lambda>i. cb_mem pcb ! ring_slot pcb (cb_ri pcb + of_nat i)) [0 ..< unat to_read],
          pcb\<lparr>cb_ri := cb_ri pcb + to_read\<rparr>))"

text \<open>\<open>peekcb_next\<close> and \<open>peekcb_peek\<close>: the return code and the new values of \<open>*r\<close> and
  \<open>*itp\<close>.\<close>

definition peekcb_next :: "peekcb_t \<Rightarrow> record_t \<Rightarrow> size_t \<Rightarrow> int \<times> record_t \<times> size_t" where
  "peekcb_next pcb r itp =
     (let it = itp + 1;
          diff = cb_wi pcb - it
      in if diff = 0 then (- ENODATA, r, itp)
         else if sint diff < 0 \<or> diff > peekcb_fill pcb then (- EINVAL, r, itp)
         else (0, cb_mem pcb ! ring_slot pcb it, it))"

definition peekcb_peek :: "peekcb_t \<Rightarrow> record_t \<Rightarrow> size_t \<Rightarrow> int \<times> record_t \<times> size_t" where
  "peekcb_peek pcb r itp =
     (if peekcb_fill pcb = 0 then (- ENODATA, r, itp)
      else (0, cb_mem pcb ! ring_slot pcb (cb_ri pcb), cb_ri pcb))"

record recser_t =
  rs_buf :: useful_buf
  rs_cb :: peekcb_t
  rs_enc :: senml_enc_t
  fit_cnt :: size_t
  rs_base :: record_base_t

record recser_init_t =
  init_buf :: useful_buf
  init_len_limit :: size_t
  init_base :: "record_base_t option"

abbreviation ARRAY_MAX_BYTES :: size_t where "ARRAY_MAX_BYTES \<equiv> 4"

text \<open>The loop \<open>while (!(len & 0x1)) len >>= 1;\<close> of \<open>recser_init\<close>, which runs after 0 has
  been refused.\<close>

function strip_zero_bits :: "size_t \<Rightarrow> size_t" where
  "strip_zero_bits len =
     (if len \<noteq> 0 \<and> len AND 1 = 0 then strip_zero_bits (drop_bit 1 len) else len)"
  by pat_completeness auto
termination
proof (relation "measure unat")
  show "wf (measure unat)" by simp
next
  fix len :: size_t
  assume "len \<noteq> 0 \<and> len AND 1 = 0"
  then have "0 < unat len" by (simp add: unat_gt_0)
  then have "unat len div 2 < unat len" by simp
  then show "(drop_bit 1 len, len) \<in> measure unat"
    by (simp add: drop_bit_eq_div unat_div)
qed

declare strip_zero_bits.simps [simp del]

text \<open>The serializer after \<open>memset(rs, 0, sizeof(*rs))\<close>.\<close>

definition recser_zero :: recser_t where
  "recser_zero =
     \<lparr>rs_buf = \<lparr>ub_ptr = 0, ub_len = 0\<rparr>,
      rs_cb = \<lparr>cb_a = 0, cb_mem = [], cb_len = 0, cb_ri = 0, cb_wi = 0\<rparr>,
      rs_enc = \<lparr>enc_buf = \<lparr>ub_ptr = 0, ub_len = 0\<rparr>,
                cbor_ctx = \<lparr>out_buf = \<lparr>ub_ptr = 0, ub_len = 0\<rparr>, data_len = 0, out_err = False,
                            nesting = [], u_error = QCBOR_SUCCESS\<rparr>\<rparr>,
      fit_cnt = 0,
      rs_base = \<lparr>base_name = 0\<rparr>\<rparr>"

definition recser_init :: "recser_t \<Rightarrow> recser_init_t \<Rightarrow> heap \<Rightarrow> int \<times> recser_t \<times> heap" where
  "recser_init rs init h =
     (if ub_ptr (init_buf init) = 0 then (- EINVAL, rs, h)
      else if init_len_limit init = 0 then (- EINVAL, rs, h)
      else if ub_len (init_buf init) < ARRAY_MAX_BYTES then (- ENOSPC, rs, h)
      else if strip_zero_bits (init_len_limit init) \<noteq> 1 then (- EINVAL, rs, h)
      else
        (case (case init_base init of
                 Some b \<Rightarrow> record_base_copy b h
               | None \<Rightarrow> (0, \<lparr>base_name = 0\<rparr>, h)) of
           (bres, base, h1) \<Rightarrow>
             if bres \<noteq> 0 then (- ENOMEM, recser_zero\<lparr>rs_base := base\<rparr>, h1)
             else (case malloc (Arr (unat (init_len_limit init))) h1 of
                     (a, h2) \<Rightarrow>
                       if a = 0
                       then (- ENOMEM, recser_zero\<lparr>rs_base := base\<rparr>, record_base_freedata base h2)
                       else (case senml_enc_init 0 (ub_len (init_buf init) - ARRAY_MAX_BYTES)
                                    (Some base) h2 of
                               (eres, enc, h3) \<Rightarrow>
                                 (0, \<lparr>rs_buf = init_buf init,
                                      rs_cb = peekcb_init a (init_len_limit init),
                                      rs_enc = enc, fit_cnt = 0, rs_base = base\<rparr>, h3)))))"

text \<open>
  \<open>recser_put(rs, rec)\<close>: the return code, the caller's record afterwards, the serializer
  and the heap. A \<open>NULL\<close> record is \<open>None\<close>. In this build \<open>_assert(e)\<close> is \<open>(void)(e)\<close>: the
  expression is evaluated and its value dropped.
\<close>

definition recser_put ::
  "recser_t \<Rightarrow> record_t option \<Rightarrow> heap \<Rightarrow> int \<times> record_t option \<times> recser_t \<times> heap" where
  "recser_put rs recp h =
     (case recp of
        None \<Rightarrow> (- EINVAL, None, rs, h)
      | Some r \<Rightarrow>
          if ub_ptr (rs_buf rs) = 0 then (- EINVAL, Some r, rs, h)
          else
            (case record_move r of (nrec, moved) \<Rightarrow>
               if peekcb_fill (rs_cb rs) = cb_len (rs_cb rs)
               then (- ENOSPC, Some (fst (record_move nrec)), rs, h)
               else
                 (case senml_enc_put (rs_enc rs) nrec h of (ret, enc, h1) \<Rightarrow>
                    if ret = - ENOSPC then
                      (if fit_cnt rs = 0
                       then (- ENOBUFS, Some (fst (record_move nrec)), rs\<lparr>rs_enc := enc\<rparr>, h1)
                       else (- EAGAIN, Some moved,
                             rs\<lparr>rs_enc := enc, rs_cb := snd (peekcb_put (rs_cb rs) [nrec])\<rparr>, h1))
                    else if ret \<noteq> 0
                    then (- EINVAL, Some (fst (record_move nrec)), rs\<lparr>rs_enc := enc\<rparr>, h1)
                    else (0, Some moved,
                          rs\<lparr>rs_enc := enc, rs_cb := snd (peekcb_put (rs_cb rs) [nrec]),
                             fit_cnt := fit_cnt rs + 1\<rparr>, h1))))"

text \<open>One round of the \<open>do ... while (--cnt)\<close> loop of \<open>_recser_flush_simulate\<close>: either the
  function is left with a result (\<open>Inl\<close>), or the round ends at \<open>while (--cnt)\<close> with the
  new values of the serializer, \<open>rec\<close>, \<open>it\<close>, \<open>flushed\<close> and the heap.\<close>

definition flush_simulate_round ::
  "recser_t \<Rightarrow> record_t \<Rightarrow> size_t \<Rightarrow> int \<Rightarrow> heap \<Rightarrow>
     (int \<times> recser_t \<times> heap) + (recser_t \<times> record_t \<times> size_t \<times> int \<times> heap)" where
  "flush_simulate_round rs r it flushed h =
     (case senml_enc_put (rs_enc rs) r h of (res, enc, h1) \<Rightarrow>
        if res = - ENOSPC then Inl (flushed, rs\<lparr>rs_enc := enc\<rparr>, h1)
        else if res \<noteq> 0 then Inl (res, rs\<lparr>rs_enc := enc\<rparr>, h1)
        else (case peekcb_next (rs_cb rs) r it of (res2, r', it') \<Rightarrow>
                if res2 = - ENODATA then Inl (flushed + 1, rs\<lparr>rs_enc := enc\<rparr>, h1)
                else Inr (rs\<lparr>rs_enc := enc\<rparr>, r', it', flushed + 1, h1)))"

text \<open>The loop, by the number of rounds that \<open>--cnt\<close> still allows after the current one.\<close>

fun flush_simulate_loop ::
  "nat \<Rightarrow> recser_t \<Rightarrow> record_t \<Rightarrow> size_t \<Rightarrow> int \<Rightarrow> heap \<Rightarrow> int \<times> recser_t \<times> heap" where
  "flush_simulate_loop 0 rs r it flushed h =
     (case flush_simulate_round rs r it flushed h of
        Inl result \<Rightarrow> result
      | Inr (rs', r', it', flushed', h') \<Rightarrow> (flushed', rs', h'))"
| "flush_simulate_loop (Suc k) rs r it flushed h =
     (case flush_simulate_round rs r it flushed h of
        Inl result \<Rightarrow> result
      | Inr (rs', r', it', flushed', h') \<Rightarrow> flush_simulate_loop k rs' r' it' flushed' h')"

definition recser_flush_simulate :: "recser_t \<Rightarrow> size_t \<Rightarrow> heap \<Rightarrow> int \<times> recser_t \<times> heap" where
  "recser_flush_simulate rs cnt h =
     (if cnt = 0 then (0, rs, h)
      else (case peekcb_peek (rs_cb rs) record_zero 0 of (res, r, it) \<Rightarrow>
              if res = - ENODATA then (0, rs, h)
              else flush_simulate_loop (unat cnt - 1) rs r it 0 h))"

text \<open>The loop \<open>while (cnt--)\<close> of \<open>_recser_flush\<close>, by the value of \<open>cnt\<close>; \<open>r\<close> is the local
  \<open>rec\<close>, which keeps its value when \<open>peekcb_get\<close> reads nothing.\<close>

fun flush_loop ::
  "nat \<Rightarrow> recser_t \<Rightarrow> record_t \<Rightarrow> int \<Rightarrow> heap \<Rightarrow> int \<times> recser_t \<times> heap" where
  "flush_loop 0 rs r flushed h = (flushed, rs, h)"
| "flush_loop (Suc cnt) rs r flushed h =
     (case peekcb_get (rs_cb rs) 1 of (n, got, pcb) \<Rightarrow>
        (let r' = (case got of x # _ \<Rightarrow> x | [] \<Rightarrow> r) in
         case senml_enc_put (rs_enc rs) r' h of (res, enc, h1) \<Rightarrow>
           (let h2 = (if rec_type r' = RECORDTYPE_STRING then free (rec_val r') h1 else h1);
                rs' = rs\<lparr>rs_cb := pcb, rs_enc := enc\<rparr>
            in if res = - ENOSPC then (flushed, rs', h2)
               else if res \<noteq> 0 then (res, rs', h2)
               else flush_loop cnt rs' r' (flushed + 1) h2)))"

definition recser_flush :: "recser_t \<Rightarrow> size_t \<Rightarrow> heap \<Rightarrow> int \<times> recser_t \<times> heap" where
  "recser_flush rs cnt h = flush_loop (unat cnt) rs record_zero 0 h"

text \<open>\<open>recser_swap(rs, out)\<close>: the return code, \<open>*out\<close> afterwards, the serializer and the
  heap.\<close>

definition recser_swap ::
  "recser_t \<Rightarrow> useful_buf \<Rightarrow> heap \<Rightarrow> int \<times> useful_buf \<times> recser_t \<times> heap" where
  "recser_swap rs out h =
     (if ub_ptr (rs_buf rs) = 0 then (- EINVAL, out, rs, h)
      else
        (case (if fit_cnt rs > 0 then
                 (case senml_enc_init (ub_ptr (rs_buf rs)) (ub_len (rs_buf rs))
                         (Some (rs_base rs)) h of (ires, enc, h1) \<Rightarrow>
                    case recser_flush (rs\<lparr>rs_enc := enc\<rparr>) (fit_cnt rs) h1 of (fres, rs1, h2) \<Rightarrow>
                      case senml_enc_close (rs_enc rs1) h2 of (cres, len, enc2, h3) \<Rightarrow>
                        (case len of Some n \<Rightarrow> n | None \<Rightarrow> h_junk h3,
                         rs1\<lparr>fit_cnt := 0, rs_enc := enc2\<rparr>, h3))
               else (0, rs, h)) of
           (enc_len, rs2, h4) \<Rightarrow>
             (let out' = (rs_buf rs2)\<lparr>ub_len := enc_len\<rparr>;
                  rs3 = rs2\<lparr>rs_buf := out\<rparr>
              in if ub_ptr (rs_buf rs3) = 0 then
                   (case senml_enc_init 0 0xFFFF (Some (rs_base rs3)) h4 of (ires, enc, h5) \<Rightarrow>
                      case recser_flush (rs3\<lparr>rs_enc := enc\<rparr>) (peekcb_fill (rs_cb rs3)) h5 of
                        (fres, rs4, h6) \<Rightarrow>
                          (0, out', rs4\<lparr>fit_cnt := 0\<rparr>,
                           record_base_freedata (rs_base rs4) (free (cb_a (rs_cb rs4)) h6)))
                 else
                   (case senml_enc_init 0 (ub_len (rs_buf rs3) - ARRAY_MAX_BYTES)
                           (Some (rs_base rs3)) h4 of (ires, enc, h5) \<Rightarrow>
                      (let rs4 = rs3\<lparr>rs_enc := enc\<rparr> in
                       if peekcb_fill (rs_cb rs4) \<noteq> 0 then
                         (case recser_flush_simulate rs4 (peekcb_fill (rs_cb rs4)) h5 of
                            (res, rs5, h6) \<Rightarrow>
                              (- EAGAIN, out', rs5\<lparr>fit_cnt := word_of_int res\<rparr>, h6))
                       else (0, out', rs4, h5))))))"

section \<open>Memory files and the logger (vstorage.c, logging.c)\<close>

text \<open>
  What the logger sees of the file system and of the transfer driver: the open memory files
  (for a descriptor the private data of the file, its buffer and whether \<open>VSTORF_OWNS_BUF\<close>
  is set), the jobs that the driver has accepted (job and descriptor), and the results that
  the next \<open>vfs_bind\<close> and the next \<open>trysend\<close> of the driver give (both outside the
  repository).
\<close>

record log_env =
  env_files :: "int \<rightharpoonup> addr \<times> addr \<times> bool"
  env_jobs :: "(addr \<times> int) list"
  bind_res :: int
  trysend_res :: int

text \<open>\<open>vstorfile_open\<close> for a buffer and its size, with the flag \<open>VSTORF_OWNS_BUF\<close> as a
  boolean.\<close>

definition vstorfile_open ::
  "addr \<Rightarrow> size_t \<Rightarrow> bool \<Rightarrow> log_env \<Rightarrow> heap \<Rightarrow> int \<times> log_env \<times> heap" where
  "vstorfile_open buf bufsiz owns e h =
     (if buf = 0 \<or> bufsiz = 0 then (- EINVAL, e, h)
      else (case malloc Obj h of (privdata, h1) \<Rightarrow>
              if privdata = 0 then (- ENOMEM, e, h1)
              else if bind_res e < 0 then (bind_res e, e, free privdata h1)
              else (bind_res e,
                    e\<lparr>env_files := (env_files e)(bind_res e \<mapsto> (privdata, buf, owns))\<rparr>, h1)))"

text \<open>\<open>vfs_close\<close> on a memory file runs \<open>_close\<close> of \<open>vstorage.c\<close>.\<close>

definition vfs_close :: "int \<Rightarrow> log_env \<Rightarrow> heap \<Rightarrow> log_env \<times> heap" where
  "vfs_close fd e h =
     (case env_files e fd of
        None \<Rightarrow> (e, h)
      | Some (privdata, buf, owns) \<Rightarrow>
          (e\<lparr>env_files := (env_files e)(fd := None)\<rparr>,
           free privdata (if owns then free buf h else h)))"

record logg_t =
  lg_ser :: recser_t
  lg_encbuf_size :: size_t

record logg_init_t =
  li_driv :: addr
  li_record_queue_size :: size_t
  li_encoding_buf_size :: size_t
  li_base_name :: addr

text \<open>\<open>logg_create(init, log)\<close> with both pointers valid: the return code, the logger when
  there is one, and the heap.\<close>

definition logg_create :: "logg_init_t \<Rightarrow> heap \<Rightarrow> int \<times> logg_t option \<times> heap" where
  "logg_create init h =
     (if li_driv init = 0 then (- EINVAL, None, h)
      else (case malloc Obj h of (logger, h1) \<Rightarrow>
              if logger = 0 then (- ENOMEM, None, h1)
              else (case malloc (Buf (unat (li_encoding_buf_size init)) 0) h1 of
                      (ser_buf, h2) \<Rightarrow>
                        if ser_buf = 0 then (- ENOMEM, None, free logger (free ser_buf h2))
                        else (case recser_init recser_zero
                                     \<lparr>init_buf = \<lparr>ub_ptr = ser_buf,
                                                    ub_len = li_encoding_buf_size init\<rparr>,
                                      init_len_limit = li_record_queue_size init,
                                      init_base = Some \<lparr>base_name = li_base_name init\<rparr>\<rparr> h2 of
                                (res, ser, h3) \<Rightarrow>
                                  if res < 0 then (res, None, free logger (free ser_buf h3))
                                  else (0, Some \<lparr>lg_ser = ser,
                                                 lg_encbuf_size = li_encoding_buf_size init\<rparr>,
                                        h3)))))"

text \<open>\<open>_logg_send_buffer(logger, ub)\<close>: the return code, \<open>*ub\<close> afterwards, the environment
  and the heap.\<close>

definition logg_send_buffer ::
  "logg_t \<Rightarrow> useful_buf \<Rightarrow> log_env \<Rightarrow> heap \<Rightarrow> int \<times> useful_buf \<times> log_env \<times> heap" where
  "logg_send_buffer logger ub e h =
     (if ub_len ub = 0 then (0, ub, e, h)
      else (case vstorfile_open (ub_ptr ub) (ub_len ub) True e h of (fd, e1, h1) \<Rightarrow>
              if fd < 0 then (fd, ub\<lparr>ub_ptr := 0\<rparr>, e1, free (ub_ptr ub) h1)
              else (case malloc Obj h1 of (job, h2) \<Rightarrow>
                      if job = 0
                      then (case vfs_close fd e1 h2 of (e2, h3) \<Rightarrow>
                              (- ENOMEM, ub\<lparr>ub_ptr := 0\<rparr>, e2, h3))
                      else if trysend_res e1 \<noteq> 0
                      then (case vfs_close fd e1 h2 of (e2, h3) \<Rightarrow>
                              (trysend_res e1, ub\<lparr>ub_ptr := 0\<rparr>, e2, free job h3))
                      else (0, ub\<lparr>ub_ptr := 0\<rparr>, e1\<lparr>env_jobs := env_jobs e1 @ [(job, fd)]\<rparr>,
                            h2))))"

text \<open>The end of \<open>_logg_put\<close>, from \<open>free(ub.ptr)\<close> on, with the values that \<open>retval\<close>, \<open>ub\<close>,
  \<open>nrec\<close> and the serializer have there; \<open>r\<close> is the record of the caller.\<close>

definition logg_put_end ::
  "logg_t \<Rightarrow> record_t \<Rightarrow> int \<Rightarrow> useful_buf \<Rightarrow> record_t \<Rightarrow> recser_t \<Rightarrow> log_env \<Rightarrow> heap \<Rightarrow>
     int \<times> record_t \<times> logg_t \<times> log_env \<times> heap" where
  "logg_put_end logger r retval ub nrec ser e h =
     (case record_freedata nrec (free (ub_ptr ub) h) of (nrec', h1) \<Rightarrow>
        if retval = 0
        then (case record_freedata r h1 of (r', h2) \<Rightarrow>
                (retval, r', logger\<lparr>lg_ser := ser\<rparr>, e, h2))
        else (retval, r, logger\<lparr>lg_ser := ser\<rparr>, e, h1))"

text \<open>\<open>_logg_put(rstr, rec)\<close> for a record (with \<open>rec == NULL\<close> the function is
  \<open>_logg_flush\<close>): the return code, the record of the caller afterwards, the logger, the
  environment and the heap.\<close>

definition logg_put ::
  "logg_t \<Rightarrow> record_t \<Rightarrow> log_env \<Rightarrow> heap \<Rightarrow> int \<times> record_t \<times> logg_t \<times> log_env \<times> heap" where
  "logg_put logger r e h =
     (case record_copy r h of (res, nrec, h1) \<Rightarrow>
        if res \<noteq> 0 then (res, r, logger, e, h1)
        else
          (case recser_put (lg_ser logger) (Some nrec) h1 of (put_res, nrecp, ser1, h2) \<Rightarrow>
             (let nrec1 = (case nrecp of Some n \<Rightarrow> n | None \<Rightarrow> nrec) in
              if put_res = - EAGAIN \<or> put_res = - ENOSPC then
                (case malloc (Buf (unat (lg_encbuf_size logger)) 0) h2 of (p, h3) \<Rightarrow>
                   if p = 0
                   then logg_put_end logger r (- ENOMEM)
                          \<lparr>ub_ptr = 0, ub_len = lg_encbuf_size logger\<rparr> nrec1 ser1 e h3
                   else
                     (case recser_swap ser1 \<lparr>ub_ptr = p, ub_len = lg_encbuf_size logger\<rparr> h3 of
                        (sres, ub1, ser2, h4) \<Rightarrow>
                          if sres \<noteq> 0 \<and> sres \<noteq> - EAGAIN
                          then logg_put_end logger r sres ub1 nrec1 ser2 e h4
                          else
                            (case logg_send_buffer logger ub1 e h4 of (bres, ub2, e1, h5) \<Rightarrow>
                               if put_res = - ENOSPC then
                                 (case recser_put ser2 (Some nrec1) h5 of
                                    (put_res2, nrecp2, ser3, h6) \<Rightarrow>
                                      logg_put_end logger r
                                        (if put_res2 \<noteq> - EAGAIN then put_res2 else 0) ub2
                                        (case nrecp2 of Some n \<Rightarrow> n | None \<Rightarrow> nrec1) ser3 e1 h6)
                               else logg_put_end logger r 0 ub2 nrec1 ser2 e1 h5)))
              else logg_put_end logger r put_res \<lparr>ub_ptr = 0, ub_len = 0\<rparr> nrec1 ser1 e h2)))"

section \<open>The queue of the ring, and traces of the serializer\<close>

text \<open>The records queued in the ring, oldest first, and the shape of a ring made by
  \<open>recser_init\<close>: \<open>2^k\<close> slots and a fill of at most that.\<close>

definition ring_list :: "peekcb_t \<Rightarrow> record_t list" where
  "ring_list pcb =
     map (\<lambda>i. cb_mem pcb ! ring_slot pcb (cb_ri pcb + of_nat i)) [0 ..< unat (peekcb_fill pcb)]"

definition ring_wf :: "nat \<Rightarrow> peekcb_t \<Rightarrow> bool" where
  "ring_wf k pcb =
     (k < 32 \<and> cb_len pcb = 2 ^ k \<and> length (cb_mem pcb) = 2 ^ k \<and>
      peekcb_fill pcb \<le> cb_len pcb)"

text \<open>Two records, and a serializer made by \<open>recser_init\<close> over a buffer of 64 bytes at
  address 1 with a ring of two records; the heap also holds a buffer of 2 bytes at address 2
  and one of 64 bytes at address 3.\<close>

definition light42 :: record_t where
  "light42 = \<lparr>rec_name = ''light'', rec_timestamp = \<lparr>seconds = 100, microseconds = 0\<rparr>,
               rec_val = 42, rec_type = RECORDTYPE_U32, rec_unit = 50\<rparr>"

definition msg_at :: "addr \<Rightarrow> record_t" where
  "msg_at p = \<lparr>rec_name = ''msg'', rec_timestamp = \<lparr>seconds = 100, microseconds = 0\<rparr>,
               rec_val = p, rec_type = RECORDTYPE_STRING, rec_unit = RECORDUNIT_NONE\<rparr>"

definition heap0 :: heap where
  "heap0 = \<lparr>h_mem = [1 \<mapsto> Buf 64 0, 2 \<mapsto> Buf 2 0, 3 \<mapsto> Buf 64 0], h_brk = 16, h_plan = [],
             h_junk = 0xBAD\<rparr>"

definition init0 :: recser_init_t where
  "init0 = \<lparr>init_buf = \<lparr>ub_ptr = 1, ub_len = 64\<rparr>, init_len_limit = 2, init_base = None\<rparr>"

definition rs0 :: recser_t where
  "rs0 = fst (snd (recser_init recser_zero init0 heap0))"

definition h0 :: heap where
  "h0 = snd (snd (recser_init recser_zero init0 heap0))"

text \<open>First trace: a serializer with a ring of four records over a buffer of 64 bytes; the
  heap holds a string of 65536 characters at address 5 and the string \<open>c\<close> at address 6.
  Three records are put, the second and third being strings that own these two payloads,
  and then \<open>recser_swap\<close> is called with a \<open>NULL\<close> buffer.\<close>

definition heap_c5 :: heap where
  "heap_c5 = \<lparr>h_mem = [1 \<mapsto> Buf 64 0, 5 \<mapsto> Str (replicate 65536 CHR ''x''), 6 \<mapsto> Str ''c''],
               h_brk = 16, h_plan = [], h_junk = 0\<rparr>"

definition init_c5 :: recser_init_t where
  "init_c5 = \<lparr>init_buf = \<lparr>ub_ptr = 1, ub_len = 64\<rparr>, init_len_limit = 4, init_base = None\<rparr>"

definition c5_s0 :: "int \<times> recser_t \<times> heap" where
  "c5_s0 = recser_init recser_zero init_c5 heap_c5"

definition c5_s1 :: "int \<times> record_t option \<times> recser_t \<times> heap" where
  "c5_s1 = recser_put (fst (snd c5_s0)) (Some light42) (snd (snd c5_s0))"

definition c5_s2 :: "int \<times> record_t option \<times> recser_t \<times> heap" where
  "c5_s2 = recser_put (fst (snd (snd c5_s1))) (Some (msg_at 5)) (snd (snd (snd c5_s1)))"

definition c5_s3 :: "int \<times> record_t option \<times> recser_t \<times> heap" where
  "c5_s3 = recser_put (fst (snd (snd c5_s2))) (Some (msg_at 6)) (snd (snd (snd c5_s2)))"

definition c5_s4 :: "int \<times> useful_buf \<times> recser_t \<times> heap" where
  "c5_s4 = recser_swap (fst (snd (snd c5_s3))) \<lparr>ub_ptr = 0, ub_len = 0\<rparr> (snd (snd (snd c5_s3)))"

definition c5_rs4 :: recser_t where
  "c5_rs4 = fst (snd (snd c5_s4))"

definition c5_h4 :: heap where
  "c5_h4 = snd (snd (snd c5_s4))"

text \<open>Second trace: the serializer \<open>rs0\<close> is given the buffer of 2 bytes by \<open>recser_swap\<close>,
  a record is put, and a second \<open>recser_swap\<close> hands in the buffer at address 3. \<open>c2_init\<close>
  is the encoder that the second swap sets up over the buffer of 2 bytes to commit the
  records counted by \<open>fit_cnt\<close>.\<close>

definition c2_s1 :: "int \<times> useful_buf \<times> recser_t \<times> heap" where
  "c2_s1 = recser_swap rs0 \<lparr>ub_ptr = 2, ub_len = 2\<rparr> h0"

definition c2_s2 :: "int \<times> record_t option \<times> recser_t \<times> heap" where
  "c2_s2 = recser_put (fst (snd (snd c2_s1))) (Some light42) (snd (snd (snd c2_s1)))"

definition c2_rs :: recser_t where
  "c2_rs = fst (snd (snd c2_s2))"

definition c2_h :: heap where
  "c2_h = snd (snd (snd c2_s2))"

definition c2_init :: "int \<times> senml_enc_t \<times> heap" where
  "c2_init = senml_enc_init (ub_ptr (rs_buf c2_rs)) (ub_len (rs_buf c2_rs))
               (Some (rs_base c2_rs)) c2_h"

definition c2_s3 :: "int \<times> useful_buf \<times> recser_t \<times> heap" where
  "c2_s3 = recser_swap c2_rs \<lparr>ub_ptr = 3, ub_len = 64\<rparr> c2_h"

text \<open>Third trace: a logger with a queue of two records and an encoding buffer of 40 bytes,
  created on a heap on which the fifth allocation fails; the string \<open>c\<close> at address 6 is
  the payload of the second record that the caller logs.\<close>

definition heap_c6 :: heap where
  "heap_c6 = \<lparr>h_mem = [6 \<mapsto> Str ''c''], h_brk = 16,
               h_plan = [True, True, True, True, False], h_junk = 0\<rparr>"

definition env_c6 :: log_env where
  "env_c6 = \<lparr>env_files = Map.empty, env_jobs = [], bind_res = 3, trysend_res = 0\<rparr>"

definition init_c6 :: logg_init_t where
  "init_c6 = \<lparr>li_driv = 1, li_record_queue_size = 2, li_encoding_buf_size = 40,
               li_base_name = 0\<rparr>"

definition c6_s0 :: "int \<times> logg_t option \<times> heap" where
  "c6_s0 = logg_create init_c6 heap_c6"

definition c6_s1 :: "int \<times> record_t \<times> logg_t \<times> log_env \<times> heap" where
  "c6_s1 = logg_put (the (fst (snd c6_s0))) light42 env_c6 (snd (snd c6_s0))"

definition c6_s2 :: "int \<times> record_t \<times> logg_t \<times> log_env \<times> heap" where
  "c6_s2 = logg_put (fst (snd (snd c6_s1))) (msg_at 6) (fst (snd (snd (snd c6_s1))))
             (snd (snd (snd (snd c6_s1))))"

definition c6_lg2 :: logg_t where
  "c6_lg2 = fst (snd (snd c6_s2))"

definition c6_h2 :: heap where
  "c6_h2 = snd (snd (snd (snd c6_s2)))"

chapter \<open>Properties\<close>

section \<open>Publisher retries\<close>

lemma snd_loop_spec:
  "snd_loop net i r = (res, k) \<Longrightarrow>
     i < k \<and> k \<le> i + unat r + 1 \<and> res = net (k - 1) \<and>
     (\<forall>j. i \<le> j \<and> j < k - 1 \<longrightarrow> net j < 0) \<and>
     (0 \<le> res \<or> k = i + unat r + 1)"
proof (induction net i r arbitrary: res k rule: snd_loop.induct)
  case (1 net i retry)
  show ?case
  proof (cases "net i < 0 \<and> retry \<noteq> 0")
    case True
    then have rec: "snd_loop net (Suc i) (retry - 1) = (res, k)"
      using "1.prems" by (simp add: snd_loop.simps [of net i retry])
    have dec: "unat (retry - 1) + 1 = unat retry"
      using True by (simp add: unat_minus_one unat_gt_0 Suc_leI)
    have ih: "Suc i < k \<and> k \<le> Suc i + unat (retry - 1) + 1 \<and> res = net (k - 1) \<and>
       (\<forall>j. Suc i \<le> j \<and> j < k - 1 \<longrightarrow> net j < 0) \<and>
       (0 \<le> res \<or> k = Suc i + unat (retry - 1) + 1)"
      by (rule "1.IH" [OF refl _ rec]) (use True in simp)
    have "\<forall>j. i \<le> j \<and> j < k - 1 \<longrightarrow> net j < 0"
    proof (intro allI impI)
      fix j assume j: "i \<le> j \<and> j < k - 1"
      show "net j < 0"
      proof (cases "j = i")
        case True
        with \<open>net i < 0 \<and> retry \<noteq> 0\<close> show ?thesis by simp
      next
        case False
        with j have "Suc i \<le> j \<and> j < k - 1" by simp
        with ih show ?thesis by blast
      qed
    qed
    moreover have "i < k" using ih by simp
    moreover have "k \<le> i + unat retry + 1" using ih dec by linarith
    moreover have "res = net (k - 1)" using ih by simp
    moreover have "0 \<le> res \<or> k = i + unat retry + 1" using ih dec by linarith
    ultimately show ?thesis by blast
  next
    case False
    then have "(res, k) = (net i, Suc i)"
      using "1.prems" by (auto simp add: snd_loop.simps [of net i retry])
    with False show ?thesis by (auto simp: unat_eq_0 not_less)
  qed
qed

text \<open>
  Claim C8. For every transfer job executed by the publisher worker (\<open>_pub_exec_snd_job\<close>),
  with or without a callback, \<open>net_send\<close> is called \<open>n\<close> times with
  \<open>1 \<le> n \<le> retry_cnt + 1\<close>; every call but the last returned a negative value, and the
  last one either returned a non-negative value or was call number \<open>retry_cnt + 1\<close>. A job
  with a callback has it run exactly once, after the last call, with the final status: the
  last return value of \<open>net_send\<close>, a positive byte count being reported as \<open>0\<close> (the job
  status is "0 on success, negative error otherwise"); for a job whose callback is \<open>NULL\<close>
  no callback is run.
\<close>

theorem pub_exec_snd_job_retries:
  assumes "w' = pub_exec_snd_job net pub (Some job) w"
    and "n = net_calls w' - net_calls w"
    and "last_res = net (net_calls w + n - 1)"
  shows "1 \<le> n \<and> n \<le> unat (retry_cnt pub) + 1 \<and>
         net_calls w' = net_calls w + n \<and>
         (\<forall>i<n - 1. net (net_calls w + i) < 0) \<and>
         (0 \<le> last_res \<or> n = unat (retry_cnt pub) + 1) \<and>
         cb_calls w' = cb_calls w @
           (case job_cb job of
              None \<Rightarrow> []
            | Some c \<Rightarrow> [(c, if last_res > 0 then 0 else last_res)])"
proof -
  obtain res k where loop: "snd_loop net (net_calls w) (retry_cnt pub) = (res, k)"
    by (cases "snd_loop net (net_calls w) (retry_cnt pub)")
  note sp = snd_loop_spec [OF loop]
  have lt: "net_calls w < k" and le: "k \<le> net_calls w + unat (retry_cnt pub) + 1"
    and res: "res = net (k - 1)"
    and neg: "\<forall>j. net_calls w \<le> j \<and> j < k - 1 \<longrightarrow> net j < 0"
    and fin: "0 \<le> res \<or> k = net_calls w + unat (retry_cnt pub) + 1"
    using sp by blast+
  have w': "w' = w\<lparr>net_calls := k, cb_calls := cb_calls w @
                  (case job_cb job of
                     None \<Rightarrow> []
                   | Some c \<Rightarrow> [(c, if res > 0 then 0 else res)])\<rparr>"
    using assms(1) loop by (simp add: pub_exec_snd_job_def split: option.split)
  have n: "n = k - net_calls w" using assms(2) w' by simp
  have k: "k = net_calls w + n" using n lt by linarith
  have lr: "last_res = res" using assms(3) k res by simp
  have "\<forall>i<n - 1. net (net_calls w + i) < 0"
  proof (intro allI impI)
    fix i assume "i < n - 1"
    then have "net_calls w \<le> net_calls w + i \<and> net_calls w + i < k - 1" using k by linarith
    with neg show "net (net_calls w + i) < 0" by blast
  qed
  moreover have "1 \<le> n" using n lt by linarith
  moreover have "n \<le> unat (retry_cnt pub) + 1" using n le by linarith
  moreover have "net_calls w' = net_calls w + n" using w' k by simp
  moreover have "0 \<le> last_res \<or> n = unat (retry_cnt pub) + 1" using lr n fin lt by auto
  moreover have "cb_calls w' = cb_calls w @
           (case job_cb job of
              None \<Rightarrow> []
            | Some c \<Rightarrow> [(c, if last_res > 0 then 0 else last_res)])"
    unfolding w' lr by (cases "job_cb job") simp_all
  ultimately show ?thesis by blast
qed

theorem pub_exec_snd_job_retries_witness:
  "net_calls (pub_exec_snd_job (\<lambda>i. - 5) \<lparr>retry_cnt = 3\<rparr>
                (Some \<lparr>job_fd = 3, job_cb = None\<rparr>) \<lparr>net_calls = 0, cb_calls = []\<rparr>) = 4 \<and>
   cb_calls (pub_exec_snd_job (\<lambda>i. - 5) \<lparr>retry_cnt = 3\<rparr>
                (Some \<lparr>job_fd = 3, job_cb = None\<rparr>) \<lparr>net_calls = 0, cb_calls = []\<rparr>) = [] \<and>
   net_calls (pub_exec_snd_job (\<lambda>i. if i < 2 then - 5 else 7) \<lparr>retry_cnt = 3\<rparr>
                (Some \<lparr>job_fd = 3, job_cb = Some 1\<rparr>) \<lparr>net_calls = 0, cb_calls = []\<rparr>) = 3 \<and>
   cb_calls (pub_exec_snd_job (\<lambda>i. if i < 2 then - 5 else 7) \<lparr>retry_cnt = 3\<rparr>
                (Some \<lparr>job_fd = 3, job_cb = Some 1\<rparr>) \<lparr>net_calls = 0, cb_calls = []\<rparr>) = [(1, 0)]"
  using pub_exec_snd_job_retries
    [where net = "\<lambda>i. - 5" and pub = "\<lparr>retry_cnt = 3\<rparr>"
       and job = "\<lparr>job_fd = 3, job_cb = None\<rparr>" and w = "\<lparr>net_calls = 0, cb_calls = []\<rparr>",
     OF refl refl refl]
    pub_exec_snd_job_retries
    [where net = "\<lambda>i. if i < 2 then - 5 else 7" and pub = "\<lparr>retry_cnt = 3\<rparr>"
       and job = "\<lparr>job_fd = 3, job_cb = Some 1\<rparr>" and w = "\<lparr>net_calls = 0, cb_calls = []\<rparr>",
     OF refl refl refl]
  by (simp add: pub_exec_snd_job_def snd_loop.simps)

section \<open>Data pool\<close>

lemma size_loop_count:
  "size_loop ds cnt = cnt + int (length (filter (\<lambda>d. pool_name (entry_fname d)) ds))"
  by (induction ds arbitrary: cnt) (auto simp: pool_name_def split: prod.splits)

lemma find_loop_newer:
  "find_loop cmpf_newer ds (fnd, f0) =
     (fnd \<or> (\<exists>d\<in>set ds. pool_name (entry_fname d) \<and> f0 \<le> pool_id (entry_fname d)),
      fold max (map (\<lambda>d. pool_id (entry_fname d)) (filter (\<lambda>d. pool_name (entry_fname d)) ds)) f0)"
proof (induction ds arbitrary: fnd f0)
  case Nil
  then show ?case by simp
next
  case (Cons d ds)
  obtain v e where st: "strtoul16 (entry_fname d) = (v, e)" by (cases "strtoul16 (entry_fname d)")
  show ?case
  proof (cases "e = []")
    case False
    then show ?thesis using st Cons.IH by (simp add: pool_name_def)
  next
    case True
    show ?thesis
    proof (cases "f0 \<le> v")
      case ge: True
      then have "max v f0 = v" by (simp add: max_def)
      then show ?thesis using st True ge Cons.IH [of True v]
        by (auto simp: pool_name_def pool_id_def cmpf_newer_def)
    next
      case lt: False
      then have m: "max v f0 = f0" using linear [of f0 v] by (simp add: max_def)
      show ?thesis using st True lt Cons.IH [of fnd f0] m
        by (auto simp: pool_name_def pool_id_def cmpf_newer_def)
    qed
  qed
qed

lemma find_loop_older:
  "find_loop cmpf_older ds (fnd, f0) =
     (fnd \<or> (\<exists>d\<in>set ds. pool_name (entry_fname d) \<and> pool_id (entry_fname d) \<le> f0),
      fold min (map (\<lambda>d. pool_id (entry_fname d)) (filter (\<lambda>d. pool_name (entry_fname d)) ds)) f0)"
proof (induction ds arbitrary: fnd f0)
  case Nil
  then show ?case by simp
next
  case (Cons d ds)
  obtain v e where st: "strtoul16 (entry_fname d) = (v, e)" by (cases "strtoul16 (entry_fname d)")
  show ?case
  proof (cases "e = []")
    case False
    then show ?thesis using st Cons.IH by (simp add: pool_name_def)
  next
    case True
    show ?thesis
    proof (cases "v \<le> f0")
      case ge: True
      then have "min v f0 = v" by (simp add: min_def)
      then show ?thesis using st True ge Cons.IH [of True v]
        by (auto simp: pool_name_def pool_id_def cmpf_older_def)
    next
      case lt: False
      then have m: "min v f0 = f0" by (simp add: min_def)
      show ?thesis using st True lt Cons.IH [of fnd f0] m
        by (auto simp: pool_name_def pool_id_def cmpf_older_def)
    qed
  qed
qed

lemma entry_fname_slash:
  "n \<noteq> [] \<Longrightarrow> CHR ''/'' \<notin> set n \<Longrightarrow>
   entry_fname (if b then CHR ''/'' # n else n) = n"
  by (cases n) (auto simp: entry_fname_def)

lemma in_map_filter: "n \<in> set (map f (filter P xs)) \<Longrightarrow> \<exists>p\<in>set xs. P p \<and> n = f p"
  by auto

lemma dir_entries_name:
  assumes "n \<in> set (dir_entries fs dir)"
  shows "n \<noteq> [] \<and> CHR ''/'' \<notin> set n \<and> dir @ ''/'' @ n \<in> set (vfiles fs)"
proof -
  from assms [unfolded dir_entries_def, THEN in_map_filter]
  obtain p where p: "p \<in> set (vfiles fs)" and tk: "take (length dir + 1) p = dir @ ''/''"
    and ne: "drop (length dir + 1) p \<noteq> []" and ns: "CHR ''/'' \<notin> set (drop (length dir + 1) p)"
    and n: "n = drop (length dir + 1) p"
    by blast
  have "take (length dir + 1) p @ drop (length dir + 1) p = p" by (rule append_take_drop_id)
  then have "(dir @ ''/'') @ n = p" unfolding tk n .
  then have eq: "dir @ ''/'' @ n = p" by (simp only: append_assoc)
  have 1: "n \<noteq> []" using ne unfolding n .
  have 2: "CHR ''/'' \<notin> set n" using ns unfolding n .
  have 3: "dir @ ''/'' @ n \<in> set (vfiles fs)" using p unfolding eq .
  show ?thesis using 1 2 3 by (intro conjI)
qed

lemma opendir_names:
  "dir \<in> set (vdirs fs) \<Longrightarrow> readdir_fail fs = None \<Longrightarrow>
   vfs_opendir fs dir =
     (0, map (\<lambda>n. if lead_slash fs then CHR ''/'' # n else n) (dir_entries fs dir), 0)"
  by (simp add: vfs_opendir_def)

lemma map_entry_fname_names:
  "map entry_fname (map (\<lambda>n. if b then CHR ''/'' # n else n) (dir_entries fs dir)) = dir_entries fs dir"
proof -
  have "\<And>n. n \<in> set (dir_entries fs dir) \<Longrightarrow> entry_fname (if b then CHR ''/'' # n else n) = n"
    using dir_entries_name entry_fname_slash by blast
  then show ?thesis by (simp add: map_idI)
qed

lemma filter_names:
  "map entry_fname (filter (\<lambda>d. P (entry_fname d)) ds) = filter P (map entry_fname ds)"
  by (induction ds) auto

lemma length_filter_names:
  "length (filter (\<lambda>d. P (entry_fname d)) ds) = length (filter P (map entry_fname ds))"
  by (induction ds) auto

lemma dpool_size_count:
  assumes "pooldir \<in> set (vdirs fs)" and "readdir_fail fs = None"
  shows "dpool_size fs (Some pooldir) = int (length (filter pool_name (dir_entries fs pooldir)))"
  using assms
  by (simp add: dpool_size_def opendir_names size_loop_count length_filter_names
      map_entry_fname_names del: map_map)

lemma vfs_unlink_ok:
  "unlink_res fs p = 0 \<Longrightarrow> p \<in> set (vfiles fs) \<Longrightarrow>
   vfs_unlink fs p = (0, fs\<lparr>vfiles := removeAll p (vfiles fs)\<rparr>)"
  by (simp add: vfs_unlink_def)

lemma vfs_unlink_fail:
  "unlink_res fs p \<noteq> 0 \<Longrightarrow> vfs_unlink fs p = (unlink_res fs p, fs)"
  by (simp add: vfs_unlink_def)

lemma abs_fname_inj: "abs_fname a dir = abs_fname b dir \<longleftrightarrow> a = b"
  by (simp add: abs_fname_def)

lemma filter_removeAll_notin:
  "filter (\<lambda>q. q \<notin> set tw) (removeAll p xs) = filter (\<lambda>q. q \<notin> set (p # tw)) xs"
  by (induction xs) auto

lemma drain_loop_char:
  assumes "distinct (map entry_fname ds)"
    and "\<forall>d\<in>set ds. abs_fname (entry_fname d) pooldir \<in> set (vfiles fs)"
  shows "drain_loop pooldir ds endres fs =
     (case dropWhile (\<lambda>p. unlink_res fs p = 0) (drain_paths pooldir ds) of
        [] \<Rightarrow> endres
      | p # _ \<Rightarrow> unlink_res fs p,
      fs\<lparr>vfiles := filter (\<lambda>q. q \<notin> set (takeWhile (\<lambda>p. unlink_res fs p = 0)
                                           (drain_paths pooldir ds))) (vfiles fs)\<rparr>)"
  using assms
proof (induction ds arbitrary: fs)
  case Nil
  then show ?case by (simp add: drain_paths_def)
next
  case (Cons d ds)
  obtain v e where st: "strtoul16 (entry_fname d) = (v, e)" by (cases "strtoul16 (entry_fname d)")
  let ?p = "abs_fname (entry_fname d) pooldir"
  have dist: "distinct (map entry_fname ds)" and notin: "entry_fname d \<notin> set (map entry_fname ds)"
    using Cons.prems(1) by simp_all
  have mem: "\<forall>d'\<in>set ds. abs_fname (entry_fname d') pooldir \<in> set (vfiles fs)"
    using Cons.prems(2) by simp
  show ?case
  proof (cases "pool_name (entry_fname d)")
    case False
    then have "e \<noteq> []" using st by (simp add: pool_name_def)
    moreover have "drain_paths pooldir (d # ds) = drain_paths pooldir ds"
      using False by (simp add: drain_paths_def)
    ultimately show ?thesis using st Cons.IH [OF dist mem] by simp
  next
    case True
    then have e: "e = []" using st by (simp add: pool_name_def)
    have paths: "drain_paths pooldir (d # ds) = ?p # drain_paths pooldir ds"
      using True by (simp add: drain_paths_def)
    show ?thesis
    proof (cases "unlink_res fs ?p = 0")
      case False
      then show ?thesis using st e paths by (simp add: vfs_unlink_fail)
    next
      case ok: True
      have pin: "?p \<in> set (vfiles fs)" using Cons.prems(2) by simp
      let ?fs' = "fs\<lparr>vfiles := removeAll ?p (vfiles fs)\<rparr>"
      have mem': "\<forall>d'\<in>set ds. abs_fname (entry_fname d') pooldir \<in> set (vfiles ?fs')"
      proof
        fix d' assume d': "d' \<in> set ds"
        then have "entry_fname d' \<in> set (map entry_fname ds)" by simp
        then have "entry_fname d' \<noteq> entry_fname d" using notin by metis
        then have "abs_fname (entry_fname d') pooldir \<noteq> ?p" by (simp add: abs_fname_inj)
        with mem d' show "abs_fname (entry_fname d') pooldir \<in> set (vfiles ?fs')" by simp
      qed
      note flt = filter_removeAll_notin [of _ ?p "vfiles fs"]
      have "drain_loop pooldir (d # ds) endres fs = drain_loop pooldir ds endres ?fs'"
        using st e ok pin by (simp add: vfs_unlink_ok)
      also have "\<dots> =
         (case dropWhile (\<lambda>p. unlink_res fs p = 0) (drain_paths pooldir ds) of
            [] \<Rightarrow> endres | p # _ \<Rightarrow> unlink_res fs p,
          fs\<lparr>vfiles := filter (\<lambda>q. q \<notin> set (takeWhile (\<lambda>p. unlink_res fs p = 0)
                                           (drain_paths pooldir ds))) (removeAll ?p (vfiles fs))\<rparr>)"
        using Cons.IH [OF dist mem'] by (simp cong: list.case_cong)
      finally show ?thesis using paths ok flt by simp
    qed
  qed
qed

lemma dir_entries_distinct:
  assumes "distinct (vfiles fs)"
  shows "distinct (dir_entries fs dir)"
proof -
  let ?P = "\<lambda>p. take (length dir + 1) p = dir @ ''/'' \<and> drop (length dir + 1) p \<noteq> [] \<and>
                 CHR ''/'' \<notin> set (drop (length dir + 1) p)"
  have "inj_on (drop (length dir + 1)) (set (filter ?P (vfiles fs)))"
  proof (rule inj_onI)
    fix p q
    assume p: "p \<in> set (filter ?P (vfiles fs))" and q: "q \<in> set (filter ?P (vfiles fs))"
      and eq: "drop (length dir + 1) p = drop (length dir + 1) q"
    have "take (length dir + 1) p = take (length dir + 1) q" using p q by simp
    then have "take (length dir + 1) p @ drop (length dir + 1) p =
               take (length dir + 1) q @ drop (length dir + 1) q" using eq by (rule arg_cong2)
    then show "p = q" by (simp only: append_take_drop_id)
  qed
  moreover have "distinct (filter ?P (vfiles fs))" using assms by (rule distinct_filter)
  ultimately show ?thesis unfolding dir_entries_def by (simp only: distinct_map) 
qed

lemma dir_entries_filter:
  "dir_entries (fs\<lparr>vfiles := filter Q (vfiles fs)\<rparr>) dir =
     filter (\<lambda>n. Q (dir @ ''/'' @ n)) (dir_entries fs dir)"
proof -
  let ?k = "length dir + 1"
  let ?P = "\<lambda>p. take ?k p = dir @ ''/'' \<and> drop ?k p \<noteq> [] \<and> CHR ''/'' \<notin> set (drop ?k p)"
  have path: "dir @ ''/'' @ drop ?k p = p" if "?P p" for p
  proof -
    have "take ?k p @ drop ?k p = p" by (rule append_take_drop_id)
    with that show ?thesis by (metis append.assoc)
  qed
  have "map (drop ?k) (filter ?P (filter Q xs)) =
        filter (\<lambda>n. Q (dir @ ''/'' @ n)) (map (drop ?k) (filter ?P xs))" for xs
  proof (induction xs)
    case Nil
    show ?case by simp
  next
    case (Cons p xs)
    show ?case
    proof (cases "?P p")
      case True
      with path [OF True] Cons.IH show ?thesis by (simp only: filter.simps list.map split: if_splits) simp
    next
      case False
      with Cons.IH show ?thesis by (simp only: filter.simps list.map split: if_splits) simp
    qed
  qed
  then show ?thesis unfolding dir_entries_def by simp
qed

lemma in_set_mapI: "x \<in> set xs \<Longrightarrow> f x \<in> set (map f xs)"
  by simp

lemma case_list_map:
  "(case map f xs of [] \<Rightarrow> a | p # _ \<Rightarrow> g p) = (case xs of [] \<Rightarrow> a | n # _ \<Rightarrow> g (f n))"
  by (cases xs) auto

lemma dpool_drain_char:
  assumes dir: "pooldir \<in> set (vdirs fs)" and rd: "readdir_fail fs = None"
    and dist: "distinct (vfiles fs)"
  shows "dpool_drain fs (Some pooldir) =
     (case dropWhile (\<lambda>n. unlink_res fs (abs_fname n pooldir) = 0)
             (filter pool_name (dir_entries fs pooldir)) of
        [] \<Rightarrow> 0
      | n # _ \<Rightarrow> unlink_res fs (abs_fname n pooldir),
      fs\<lparr>vfiles := filter (\<lambda>q. q \<notin> (\<lambda>n. abs_fname n pooldir) `
                 set (takeWhile (\<lambda>n. unlink_res fs (abs_fname n pooldir) = 0)
                        (filter pool_name (dir_entries fs pooldir)))) (vfiles fs)\<rparr>)"
proof -
  let ?names = "map (\<lambda>n. if lead_slash fs then CHR ''/'' # n else n) (dir_entries fs pooldir)"
  have en: "map entry_fname ?names = dir_entries fs pooldir" by (rule map_entry_fname_names)
  have d1: "distinct (map entry_fname ?names)"
    unfolding en using dist by (rule dir_entries_distinct)
  have d2: "\<forall>d\<in>set ?names. abs_fname (entry_fname d) pooldir \<in> set (vfiles fs)"
  proof
    fix d assume "d \<in> set ?names"
    then have "entry_fname d \<in> set (map entry_fname ?names)" by (rule in_set_mapI)
    then have "entry_fname d \<in> set (dir_entries fs pooldir)" unfolding en .
    then show "abs_fname (entry_fname d) pooldir \<in> set (vfiles fs)"
      using dir_entries_name unfolding abs_fname_def by blast
  qed
  have dp: "drain_paths pooldir ?names =
            map (\<lambda>n. abs_fname n pooldir) (filter pool_name (dir_entries fs pooldir))"
    unfolding drain_paths_def en ..
  have "dpool_drain fs (Some pooldir) = drain_loop pooldir ?names 0 fs"
    using dir rd by (simp add: dpool_drain_def opendir_names)
  also note drain_loop_char [OF d1 d2, of 0]
  finally show ?thesis
    unfolding dp by (simp add: dropWhile_map takeWhile_map comp_def case_list_map)
qed

lemma map_filter_names:
  "map (\<lambda>d. f (entry_fname d)) (filter (\<lambda>d. P (entry_fname d)) ds) =
   map f (filter P (map entry_fname ds))"
  by (induction ds) auto

lemma ex_names:
  "(\<exists>d\<in>set ds. P (entry_fname d)) \<longleftrightarrow> filter P (map entry_fname ds) \<noteq> []"
  by (induction ds) auto

lemma find_newest_char:
  assumes "pooldir \<in> set (vdirs fs)" and "readdir_fail fs = None"
  shows "find_newest fs pooldir =
           (if pool_ids fs pooldir = [] then - ENOENT else 0, Max (set (0 # pool_ids fs pooldir)))"
proof -
  let ?names = "map (\<lambda>n. if lead_slash fs then CHR ''/'' # n else n) (dir_entries fs pooldir)"
  have en: "map entry_fname ?names = dir_entries fs pooldir" by (rule map_entry_fname_names)
  have ids: "map (\<lambda>d. pool_id (entry_fname d)) (filter (\<lambda>d. pool_name (entry_fname d)) ?names) =
             pool_ids fs pooldir"
    unfolding map_filter_names en pool_ids_def ..
  have fnd: "(\<exists>d\<in>set ?names. pool_name (entry_fname d) \<and> 0 \<le> pool_id (entry_fname d)) \<longleftrightarrow>
             pool_ids fs pooldir \<noteq> []"
    using ex_names [where P = pool_name and ds = ?names] unfolding en pool_ids_def by simp
  have "find_loop cmpf_newer ?names (False, 0) =
          (pool_ids fs pooldir \<noteq> [], fold max (pool_ids fs pooldir) 0)"
    unfolding find_loop_newer ids using fnd by simp
  moreover have "fold max (pool_ids fs pooldir) 0 = Max (set (0 # pool_ids fs pooldir))"
    by (rule Max.set_eq_fold [symmetric])
  ultimately show ?thesis
    using assms by (simp add: find_newest_def find_file_def opendir_names del: list.set)
qed

lemma find_oldest_char:
  assumes "pooldir \<in> set (vdirs fs)" and "readdir_fail fs = None"
  shows "find_oldest fs pooldir =
           (if pool_ids fs pooldir = [] then - ENOENT else 0,
            Min (set (0xFFFFFFFF # pool_ids fs pooldir)))"
proof -
  let ?names = "map (\<lambda>n. if lead_slash fs then CHR ''/'' # n else n) (dir_entries fs pooldir)"
  have en: "map entry_fname ?names = dir_entries fs pooldir" by (rule map_entry_fname_names)
  have ids: "map (\<lambda>d. pool_id (entry_fname d)) (filter (\<lambda>d. pool_name (entry_fname d)) ?names) =
             pool_ids fs pooldir"
    unfolding map_filter_names en pool_ids_def ..
  have top: "w \<le> (0xFFFFFFFF :: 32 word)" for w
  proof -
    have "unat w < 2 ^ 32" using unsigned_less [of w, where 'a = nat] by simp
    then show ?thesis by (simp add: word_le_nat_alt)
  qed
  have fnd: "(\<exists>d\<in>set ?names. pool_name (entry_fname d) \<and> pool_id (entry_fname d) \<le> 0xFFFFFFFF) \<longleftrightarrow>
             pool_ids fs pooldir \<noteq> []"
    using ex_names [where P = pool_name and ds = ?names] top unfolding en pool_ids_def by simp
  have "find_loop cmpf_older ?names (False, 0xFFFFFFFF) =
          (pool_ids fs pooldir \<noteq> [], fold min (pool_ids fs pooldir) 0xFFFFFFFF)"
    unfolding find_loop_older ids using fnd by simp
  moreover have "fold min (pool_ids fs pooldir) 0xFFFFFFFF =
                 Min (set (0xFFFFFFFF # pool_ids fs pooldir))"
    by (rule Min.set_eq_fold [symmetric])
  ultimately show ?thesis
    using assms by (simp add: find_oldest_def find_file_def opendir_names del: list.set)
qed

lemma hexdigit_in: "n < 16 \<Longrightarrow> hexdigit n \<in> set ''0123456789abcdef''"
  unfolding hexdigit_def by (rule nth_mem) simp

lemma nibble_less: "unat ((x :: 32 word) AND 0xF) < 16"
proof -
  have "x AND 0xF \<le> 0xF" by (rule word_and_le1)
  then have "unat (x AND 0xF) \<le> unat (0xF :: 32 word)" by (simp add: word_le_nat_alt)
  then show ?thesis by simp
qed

lemma hex8_spec_pool_name: "spec_pool_name (hex8 w)"
  unfolding spec_pool_name_def hex8_def list_all_iff
proof (intro conjI ballI)
  show "length (map (\<lambda>i. hexdigit (unat (drop_bit (4 * i) w AND 0xF))) [7, 6, 5, 4, 3, 2, 1, 0]) = 8"
    by simp
next
  fix c
  assume "c \<in> set (map (\<lambda>i. hexdigit (unat (drop_bit (4 * i) w AND 0xF))) [7, 6, 5, 4, 3, 2, 1, 0])"
  then obtain i where "c = hexdigit (unat (drop_bit (4 * i) w AND 0xF))"
    unfolding set_map by (rule imageE)
  then show "c \<in> set ''0123456789abcdef''"
    using hexdigit_in [OF nibble_less] by (simp only:)
qed

lemma schema_char:
  assumes "c \<in> set ''0123456789abcdef''"
  shows "hexval c \<noteq> None \<and> \<not> isspace c \<and> c \<noteq> CHR ''-'' \<and> c \<noteq> CHR ''+'' \<and>
         c \<noteq> CHR ''x'' \<and> c \<noteq> CHR ''X''"
  using assms by (auto simp: hexval_def isspace_def)

lemma scan_hex_all:
  "list_all (\<lambda>c. hexval c \<noteq> None) cs \<Longrightarrow>
   snd (scan_hex acc any cs) = (any \<or> cs \<noteq> [], [])"
  by (induction cs arbitrary: acc any) auto

lemma spec_pool_name_pool_name:
  assumes "spec_pool_name n"
  shows "pool_name n"
proof -
  from assms have len: "length n = 8" and all: "\<forall>c\<in>set n. c \<in> set ''0123456789abcdef''"
    unfolding spec_pool_name_def list_all_iff by blast+
  from len obtain a b t where n: "n = a # b # t" by (cases n; cases "tl n") auto
  have a: "a \<in> set ''0123456789abcdef''" and b: "b \<in> set ''0123456789abcdef''"
    using all n by simp_all
  note ca = schema_char [OF a] and cb = schema_char [OF b]
  have hv: "list_all (\<lambda>c. hexval c \<noteq> None) n"
    unfolding list_all_iff using all schema_char by blast
  obtain v where sc: "scan_hex 0 False n = (v, True, [])"
    using scan_hex_all [OF hv, of 0 False] n by (cases "scan_hex 0 False n") auto
  have "snd (strtoul16 n) = []"
    unfolding strtoul16_def using ca cb sc unfolding n by (simp add: Let_def)
  then show ?thesis by (simp add: pool_name_def)
qed

lemmas strtoul_eval = strtoul16_def isspace_def hexval_def pool_name_def pool_id_def
lemmas vfs_eval = vfs_opendir_def dir_entries_def vfs_unlink_def vfs_rename_def entry_fname_def
  abs_fname_def
lemmas dpool_eval = dpool_move_file_def dpool_drain_def dpool_size_def find_newest_def
  find_oldest_def find_file_def cmpf_newer_def cmpf_older_def hex8_def hexdigit_def

text \<open>
  Claim C3 as stated fails: the first file moved into an empty pool is named \<open>00000001\<close>,
  not \<open>00000000\<close>, because \<open>_find_newest\<close> starts from id \<open>0\<close> (not \<open>-1\<close>) and
  \<open>dpool_move_file\<close> increments it.
\<close>

theorem dpool_move_file_empty_pool_counterexample:
  "dpool_move_file
     \<lparr>vdirs = [''/p''], vfiles = [''/tmp/f''], lead_slash = False, readdir_fail = None,
      unlink_res = (\<lambda>_. 0)\<rparr> (Some ''/p'') (Some ''/tmp/f'') =
   (0, \<lparr>vdirs = [''/p''], vfiles = [''/p/00000001''], lead_slash = False, readdir_fail = None,
        unlink_res = (\<lambda>_. 0)\<rparr>)"
  by (simp add: dpool_eval vfs_eval strtoul_eval)

text \<open>
  Claim C3, amended. Take a pool directory in which every entry that \<open>strtoul\<close> reads as a
  whole number in base 16 is a pool file name of the specification (eight lowercase
  hexadecimal digits), so that the pool files are exactly these entries and their ids the
  numbers they spell. There \<open>dpool_move_file\<close> determines the maximum id among the pool files,
  an empty pool counting as id \<open>0\<close>, and renames the source file to
  \<open>pooldir/<(max + 1) mod 2^32>\<close> written as eight lowercase hexadecimal digits; the first
  file moved into an empty pool is named \<open>00000001\<close>.
\<close>

theorem dpool_move_file_next_id:
  assumes "pooldir \<in> set (vdirs fs)" and "readdir_fail fs = None"
    and "\<forall>n\<in>set (dir_entries fs pooldir). snd (strtoul16 n) = [] \<longrightarrow> spec_pool_name n"
    and "ids = map pool_id (filter spec_pool_name (dir_entries fs pooldir))"
  shows "dpool_move_file fs (Some pooldir) (Some name) =
           vfs_rename fs name (pooldir @ ''/'' @ hex8 (Max (set (0 # ids)) + 1)) \<and>
         spec_pool_name (hex8 (Max (set (0 # ids)) + 1)) \<and>
         (ids = [] \<longrightarrow>
            dpool_move_file fs (Some pooldir) (Some name) =
              vfs_rename fs name (pooldir @ ''/00000001''))"
proof -
  have "filter pool_name (dir_entries fs pooldir) = filter spec_pool_name (dir_entries fs pooldir)"
    using assms(3) spec_pool_name_pool_name by (intro filter_cong refl) (auto simp: pool_name_def)
  then have ids: "pool_ids fs pooldir = ids" unfolding pool_ids_def assms(4) by simp
  have mv: "dpool_move_file fs (Some pooldir) (Some name) =
           vfs_rename fs name (pooldir @ ''/'' @ hex8 (Max (set (0 # ids)) + 1))"
    using find_newest_char [OF assms(1,2)] unfolding ids
    by (simp add: dpool_move_file_def del: list.set)
  have one: "hex8 1 = ''00000001''" by (simp add: hex8_def hexdigit_def)
  have "ids = [] \<longrightarrow>
            dpool_move_file fs (Some pooldir) (Some name) =
              vfs_rename fs name (pooldir @ ''/00000001'')"
    using mv one by simp
  with mv hex8_spec_pool_name show ?thesis by blast
qed

theorem dpool_move_file_next_id_witness:
  "''/p'' \<in> set (vdirs \<lparr>vdirs = [''/p''], vfiles = [''/p/.ltb'', ''/p/0000000a'', ''/p/00000009''],
                        lead_slash = True, readdir_fail = None, unlink_res = (\<lambda>_. 0)\<rparr>) \<and>
   dpool_move_file \<lparr>vdirs = [''/p''], vfiles = [''/p/.ltb'', ''/p/0000000a'', ''/p/00000009''],
                        lead_slash = True, readdir_fail = None, unlink_res = (\<lambda>_. 0)\<rparr>
      (Some ''/p'') (Some ''/p/.ltb'') =
   (0, \<lparr>vdirs = [''/p''], vfiles = [''/p/0000000b'', ''/p/0000000a'', ''/p/00000009''],
                        lead_slash = True, readdir_fail = None, unlink_res = (\<lambda>_. 0)\<rparr>)"
  using dpool_move_file_next_id
    [where pooldir = "''/p''" and name = "''/p/.ltb''"
       and fs = "\<lparr>vdirs = [''/p''], vfiles = [''/p/.ltb'', ''/p/0000000a'', ''/p/00000009''],
                        lead_slash = True, readdir_fail = None, unlink_res = (\<lambda>_. 0)\<rparr>",
     OF _ _ _ refl]
  by (simp add: dpool_eval vfs_eval strtoul_eval spec_pool_name_def)

lemma dpool_drain_entries:
  assumes dir: "pooldir \<in> set (vdirs fs)" and rd: "readdir_fail fs = None"
    and dist: "distinct (vfiles fs)"
  shows "dir_entries (snd (dpool_drain fs (Some pooldir))) pooldir =
           filter (\<lambda>n. n \<notin> set (takeWhile (\<lambda>n. unlink_res fs (abs_fname n pooldir) = 0)
                                      (filter pool_name (dir_entries fs pooldir))))
                  (dir_entries fs pooldir)"
proof -
  have inj: "pooldir @ ''/'' @ n \<in> (\<lambda>n. abs_fname n pooldir) ` S \<longleftrightarrow> n \<in> S" for n S
    by (auto simp: abs_fname_def)
  show ?thesis
    unfolding dpool_drain_char [OF assms] snd_conv dir_entries_filter inj ..
qed

text \<open>
  Claim C7, evaluated on the code. \<open>dpool_drain\<close> is documented not to delete files outside
  the naming schema of the pool (hexadecimal numbers from \<open>00000000\<close> to \<open>ffffffff\<close>), and
  its test is commented as rejecting illegal file names; but the test is that \<open>strtoul\<close>
  reads the whole name. So when no unlink fails the drain returns 0 and has unlinked every
  entry whose whole name \<open>strtoul\<close> reads, whether or not it follows the schema: of a pool
  with the entries \<open>00000001\<close>, \<open>ab\<close> and \<open>.ltb\<close> only \<open>.ltb\<close> is left, one entry and
  not the two that do not follow the schema.
\<close>

theorem dpool_drain_deletes_other_names:
  assumes "pooldir \<in> set (vdirs fs)" and "readdir_fail fs = None" and "distinct (vfiles fs)"
    and "\<forall>n\<in>set (dir_entries fs pooldir). unlink_res fs (abs_fname n pooldir) = 0"
    and "n \<in> set (dir_entries fs pooldir)" and "snd (strtoul16 n) = []"
  shows "fst (dpool_drain fs (Some pooldir)) = 0 \<and>
         n \<notin> set (dir_entries (snd (dpool_drain fs (Some pooldir))) pooldir) \<and>
         abs_fname n pooldir \<notin> set (vfiles (snd (dpool_drain fs (Some pooldir))))"
proof -
  note a = assms(1-3)
  let ?names = "filter pool_name (dir_entries fs pooldir)"
  let ?ok = "\<lambda>n. unlink_res fs (abs_fname n pooldir) = 0"
  have tw: "takeWhile ?ok ?names = ?names" using assms(4) by (simp add: takeWhile_eq_all_conv)
  have dw: "dropWhile ?ok ?names = []" using assms(4) by simp
  have r: "fst (dpool_drain fs (Some pooldir)) = 0"
    unfolding dpool_drain_char [OF a] fst_conv dw by simp
  have pn: "pool_name n" using assms(6) by (simp add: pool_name_def)
  have e: "n \<notin> set (dir_entries (snd (dpool_drain fs (Some pooldir))) pooldir)"
    unfolding dpool_drain_entries [OF a] tw using assms(5) pn by simp
  have vf: "vfiles (snd (dpool_drain fs (Some pooldir))) =
              filter (\<lambda>q. q \<notin> (\<lambda>n. abs_fname n pooldir) ` set ?names) (vfiles fs)"
    unfolding dpool_drain_char [OF a] snd_conv tw by simp
  have "abs_fname n pooldir \<notin> set (vfiles (snd (dpool_drain fs (Some pooldir))))"
    unfolding vf using assms(5) pn by simp
  with r e show ?thesis by blast
qed

theorem dpool_drain_deletes_other_names_witness:
  "\<not> spec_pool_name ''ab'' \<and>
   ''ab'' \<in> set (dir_entries \<lparr>vdirs = [''/p''], vfiles = [''/p/00000001'', ''/p/ab'', ''/p/.ltb''],
               lead_slash = False, readdir_fail = None, unlink_res = (\<lambda>_. 0)\<rparr> ''/p'') \<and>
   dpool_drain \<lparr>vdirs = [''/p''], vfiles = [''/p/00000001'', ''/p/ab'', ''/p/.ltb''],
               lead_slash = False, readdir_fail = None, unlink_res = (\<lambda>_. 0)\<rparr> (Some ''/p'') =
     (0, \<lparr>vdirs = [''/p''], vfiles = [''/p/.ltb''],
               lead_slash = False, readdir_fail = None, unlink_res = (\<lambda>_. 0)\<rparr>)"
  using dpool_drain_deletes_other_names
    [where pooldir = "''/p''" and n = "''ab''"
       and fs = "\<lparr>vdirs = [''/p''], vfiles = [''/p/00000001'', ''/p/ab'', ''/p/.ltb''],
               lead_slash = False, readdir_fail = None, unlink_res = (\<lambda>_. 0)\<rparr>"]
  by (simp add: dpool_eval vfs_eval strtoul_eval spec_pool_name_def)

text \<open>
  Claim C9. The pool code takes a directory entry for a pool file exactly when \<open>strtoul\<close> in
  base 16 reads its whole name (no character is left at \<open>endptr\<close>), whether or not it has
  eight lowercase digits: \<open>dpool_size\<close> counts these entries, \<open>dpool_drain\<close> (when no unlink
  fails) removes these and no other entry, and the newest and oldest searches return the
  maximum and the minimum of their parsed values. \<open>ab\<close>, \<open>FF\<close> and \<open>0x1f\<close> are such names,
  the staging name \<open>.ltb\<close> is not.
\<close>

theorem pool_names_are_strtoul_names:
  assumes "pooldir \<in> set (vdirs fs)" and "readdir_fail fs = None" and "distinct (vfiles fs)"
    and "names = filter pool_name (dir_entries fs pooldir)"
  shows "(\<forall>n. pool_name n \<longleftrightarrow> snd (strtoul16 n) = []) \<and>
         dpool_size fs (Some pooldir) = int (length names) \<and>
         ((\<forall>n\<in>set names. unlink_res fs (abs_fname n pooldir) = 0) \<longrightarrow>
            (\<forall>n\<in>set (dir_entries fs pooldir).
               abs_fname n pooldir \<in> set (vfiles (snd (dpool_drain fs (Some pooldir)))) \<longleftrightarrow>
               \<not> pool_name n)) \<and>
         find_newest fs pooldir =
           (if names = [] then - ENOENT else 0, Max (set (0 # map pool_id names))) \<and>
         find_oldest fs pooldir =
           (if names = [] then - ENOENT else 0, Min (set (0xFFFFFFFF # map pool_id names))) \<and>
         pool_name ''ab'' \<and> pool_id ''ab'' = 0xAB \<and> \<not> spec_pool_name ''ab'' \<and>
         pool_name ''FF'' \<and> pool_id ''FF'' = 0xFF \<and> \<not> spec_pool_name ''FF'' \<and>
         pool_name ''0x1f'' \<and> pool_id ''0x1f'' = 0x1F \<and> \<not> spec_pool_name ''0x1f'' \<and>
         \<not> pool_name ''.ltb''"
proof -
  note a = assms(1-3)
  have sz: "dpool_size fs (Some pooldir) = int (length names)"
    unfolding assms(4) using assms(1,2) by (rule dpool_size_count)
  have nw: "find_newest fs pooldir =
           (if names = [] then - ENOENT else 0, Max (set (0 # map pool_id names)))"
    using find_newest_char [OF assms(1,2)] unfolding pool_ids_def assms(4) by simp
  have ol: "find_oldest fs pooldir =
           (if names = [] then - ENOENT else 0, Min (set (0xFFFFFFFF # map pool_id names)))"
    using find_oldest_char [OF assms(1,2)] unfolding pool_ids_def assms(4) by simp
  have dr: "\<forall>n\<in>set (dir_entries fs pooldir).
               abs_fname n pooldir \<in> set (vfiles (snd (dpool_drain fs (Some pooldir)))) \<longleftrightarrow>
               \<not> pool_name n"
    if ok: "\<forall>n\<in>set names. unlink_res fs (abs_fname n pooldir) = 0"
  proof
    fix n assume n: "n \<in> set (dir_entries fs pooldir)"
    have tw: "takeWhile (\<lambda>n. unlink_res fs (abs_fname n pooldir) = 0) names = names"
      using ok by (simp add: takeWhile_eq_all_conv)
    have vf: "vfiles (snd (dpool_drain fs (Some pooldir))) =
              filter (\<lambda>q. q \<notin> (\<lambda>n. abs_fname n pooldir) ` set names) (vfiles fs)"
      unfolding dpool_drain_char [OF a] snd_conv assms(4) [symmetric] tw by simp
    have inn: "abs_fname n pooldir \<in> set (vfiles fs)"
      using dir_entries_name [OF n] by (simp add: abs_fname_def)
    have "abs_fname n pooldir \<in> (\<lambda>n. abs_fname n pooldir) ` set names \<longleftrightarrow> n \<in> set names"
      by (auto simp: abs_fname_inj)
    also have "\<dots> \<longleftrightarrow> pool_name n" unfolding assms(4) using n by simp
    finally show "abs_fname n pooldir \<in> set (vfiles (snd (dpool_drain fs (Some pooldir)))) \<longleftrightarrow>
               \<not> pool_name n"
      unfolding vf using inn by simp
  qed
  have ex: "pool_name ''ab'' \<and> pool_id ''ab'' = 0xAB \<and> \<not> spec_pool_name ''ab'' \<and>
         pool_name ''FF'' \<and> pool_id ''FF'' = 0xFF \<and> \<not> spec_pool_name ''FF'' \<and>
         pool_name ''0x1f'' \<and> pool_id ''0x1f'' = 0x1F \<and> \<not> spec_pool_name ''0x1f'' \<and>
         \<not> pool_name ''.ltb''"
    by (simp add: strtoul_eval spec_pool_name_def)
  have df: "\<forall>n. pool_name n \<longleftrightarrow> snd (strtoul16 n) = []" by (simp add: pool_name_def)
  from df sz dr nw ol ex show ?thesis by blast
qed

theorem pool_names_are_strtoul_names_witness:
  "''/p'' \<in> set (vdirs \<lparr>vdirs = [''/p''], vfiles = [''/p/FF'', ''/p/ab'', ''/p/.ltb'', ''/p/0x1f''],
               lead_slash = True, readdir_fail = None, unlink_res = (\<lambda>_. 0)\<rparr>) \<and>
   dpool_size \<lparr>vdirs = [''/p''], vfiles = [''/p/FF'', ''/p/ab'', ''/p/.ltb'', ''/p/0x1f''],
               lead_slash = True, readdir_fail = None, unlink_res = (\<lambda>_. 0)\<rparr> (Some ''/p'') = 3 \<and>
   find_newest \<lparr>vdirs = [''/p''], vfiles = [''/p/FF'', ''/p/ab'', ''/p/.ltb'', ''/p/0x1f''],
               lead_slash = True, readdir_fail = None, unlink_res = (\<lambda>_. 0)\<rparr> ''/p'' = (0, 0xFF) \<and>
   find_oldest \<lparr>vdirs = [''/p''], vfiles = [''/p/FF'', ''/p/ab'', ''/p/.ltb'', ''/p/0x1f''],
               lead_slash = True, readdir_fail = None, unlink_res = (\<lambda>_. 0)\<rparr> ''/p'' = (0, 0x1F)"
  using pool_names_are_strtoul_names
    [of "''/p''" "\<lparr>vdirs = [''/p''], vfiles = [''/p/FF'', ''/p/ab'', ''/p/.ltb'', ''/p/0x1f''],
               lead_slash = True, readdir_fail = None, unlink_res = (\<lambda>_. 0)\<rparr>", OF _ _ _ refl]
  by (simp add: vfs_eval strtoul_eval)

section \<open>Forced publication\<close>

text \<open>
  Claim C4, evaluated on the code: when the handler of \<open>ltb_force_publish\<close> runs while a
  publication is in progress it starts no second publication, and it does not run the
  supplied callback either: the state is left as it was, so no callback is recorded and no
  publication step is dispatched.
\<close>

theorem force_publish_while_publishing:
  "force_publish (Some c) (w\<lparr>publishing := True\<rparr>) = w\<lparr>publishing := True\<rparr> \<and>
   ltb_cb_calls (force_publish (Some c) (w\<lparr>publishing := True\<rparr>)) = ltb_cb_calls w \<and>
   ltb_queue (force_publish (Some c) (w\<lparr>publishing := True\<rparr>)) = ltb_queue w \<and>
   ltb_dispatcher_step (w\<lparr>publishing := True, ltb_queue := [Unit_force_publish (Some c)]\<rparr>) =
     w\<lparr>publishing := True, ltb_queue := []\<rparr>"
  by (simp add: force_publish_def ltb_dispatcher_step_def)

text \<open>For comparison, the handler outside a publication: with nothing to publish the
  callback runs at once, with status 0.\<close>

lemma force_publish_idle_empty:
  "force_publish (Some c)
     \<lparr>ltb_fs = fs, ltb_lhead = [], nb_files_total = n, publishing = False, ltb_queue = q,
      ltb_cb_calls = [], unit_malloc_ok = m, open_res = o_res, send_res = s_res\<rparr> =
     \<lparr>ltb_fs = fs, ltb_lhead = [], nb_files_total = n, publishing = False, ltb_queue = q,
      ltb_cb_calls = [(c, 0)], unit_malloc_ok = m, open_res = o_res, send_res = s_res\<rparr>"
  by (simp add: force_publish_def ltb_publish_def publish_end_def)

section \<open>Record serializer\<close>

lemma unat_2p: "k < 32 \<Longrightarrow> unat (2 ^ k :: 32 word) = 2 ^ k"
proof -
  assume k: "k < 32"
  have "unat (2 ^ k :: 32 word) = unat (of_nat (2 ^ k) :: 32 word)" by simp
  also have "\<dots> = 2 ^ k mod 2 ^ 32" by (simp only: unat_of_nat) simp
  also have "\<dots> = 2 ^ k" using k power_strict_increasing [of k 32 "2::nat"] by simp
  finally show ?thesis .
qed

lemma unat_take_bit_mod: "unat (take_bit k (w :: 32 word)) = unat w mod 2 ^ k"
  by (subst unsigned_take_bit_eq) (rule take_bit_eq_mod)

lemma slot_take_bit:
  "cb_len pcb = 2 ^ k \<Longrightarrow> ring_slot pcb i = unat (take_bit k i)"
  by (simp add: ring_slot_def take_bit_eq_mask mask_eq_exp_minus_1)

lemma slot_in_range:
  assumes "ring_wf k pcb"
  shows "ring_slot pcb i < length (cb_mem pcb)"
proof -
  have "unat (take_bit k i) < 2 ^ k"
    by (simp only: unat_take_bit_mod) simp
  then show ?thesis using assms by (simp add: ring_wf_def slot_take_bit)
qed

lemma slot_distinct:
  assumes wf: "ring_wf k pcb" and j0: "j \<noteq> 0" and jlt: "j < cb_len pcb"
  shows "ring_slot pcb (i + j) \<noteq> ring_slot pcb i"
proof
  assume eq: "ring_slot pcb (i + j) = ring_slot pcb i"
  have len: "cb_len pcb = 2 ^ k" and k: "k < 32" using wf by (simp_all add: ring_wf_def)
  have jn: "0 < unat j" "unat j < 2 ^ k"
    using j0 jlt len k by (simp_all add: unat_gt_0 word_less_nat_alt unat_2p)
  from eq have "unat (i + j) mod 2 ^ k = unat i mod 2 ^ k"
    by (simp only: slot_take_bit [OF len] unat_take_bit_mod)
  moreover have "unat (i + j) mod 2 ^ k = (unat i + unat j) mod 2 ^ k"
  proof -
    have "(2::nat) ^ k dvd 2 ^ 32" using k by (intro le_imp_power_dvd) simp
    then have "(unat i + unat j) mod 2 ^ 32 mod 2 ^ k = (unat i + unat j) mod 2 ^ k"
      by (rule mod_mod_cancel)
    moreover have "unat (i + j) = (unat i + unat j) mod 2 ^ 32"
      by (simp add: unat_word_ariths)
    ultimately show ?thesis by (simp only:)
  qed
  ultimately have "(unat i + unat j) mod 2 ^ k = unat i mod 2 ^ k" by simp
  then have "(2::nat) ^ k dvd (unat i + unat j) - unat i"
    by (simp add: mod_eq_dvd_iff_nat)
  then have "(2::nat) ^ k dvd unat j" by simp
  then have "2 ^ k \<le> unat j" using jn(1) by (rule dvd_imp_le)
  with jn(2) show False by simp
qed

lemma peekcb_put_one:
  assumes "peekcb_fill pcb \<noteq> cb_len pcb"
  shows "peekcb_put pcb [r] =
           (1, pcb\<lparr>cb_mem := (cb_mem pcb)[ring_slot pcb (cb_wi pcb) := r],
                    cb_wi := cb_wi pcb + 1\<rparr>)"
proof -
  have "cb_len pcb - (cb_wi pcb - cb_ri pcb) \<noteq> 0"
    using assms by (simp add: peekcb_fill_def)
  then have "\<not> cb_len pcb - (cb_wi pcb - cb_ri pcb) < 1" by simp
  then show ?thesis by (simp add: peekcb_put_def Let_def)
qed

lemma ring_fill_less:
  assumes "ring_wf k pcb" and "peekcb_fill pcb \<noteq> cb_len pcb"
  shows "unat (peekcb_fill pcb) < 2 ^ k" and "unat (peekcb_fill pcb + 1) = unat (peekcb_fill pcb) + 1"
proof -
  have k: "k < 32" and len: "cb_len pcb = 2 ^ k" and le: "peekcb_fill pcb \<le> cb_len pcb"
    using assms(1) unfolding ring_wf_def by blast+
  from le assms(2) have "peekcb_fill pcb < cb_len pcb" by simp
  then show lt: "unat (peekcb_fill pcb) < 2 ^ k"
    using len k by (simp add: word_less_nat_alt unat_2p)
  have "(2::nat) ^ k < 2 ^ 32" using k by (intro power_strict_increasing) simp_all
  with lt have "unat (peekcb_fill pcb) + 1 < 2 ^ 32" by simp
  then show "unat (peekcb_fill pcb + 1) = unat (peekcb_fill pcb) + 1"
    by (simp add: unat_word_ariths)
qed

lemma ring_list_put:
  assumes wf: "ring_wf k pcb" and nf: "peekcb_fill pcb \<noteq> cb_len pcb"
  shows "ring_list (snd (peekcb_put pcb [r])) = ring_list pcb @ [r]"
    and "ring_wf k (snd (peekcb_put pcb [r]))"
    and "peekcb_fill (snd (peekcb_put pcb [r])) = peekcb_fill pcb + 1"
proof -
  let ?pcb' = "pcb\<lparr>cb_mem := (cb_mem pcb)[ring_slot pcb (cb_wi pcb) := r], cb_wi := cb_wi pcb + 1\<rparr>"
  have put: "snd (peekcb_put pcb [r]) = ?pcb'" by (simp add: peekcb_put_one [OF nf])
  have k: "k < 32" and len: "cb_len pcb = 2 ^ k" and lm: "length (cb_mem pcb) = 2 ^ k"
    using wf unfolding ring_wf_def by blast+
  note fl = ring_fill_less [OF wf nf]
  have fle: "peekcb_fill pcb \<le> cb_len pcb" using wf unfolding ring_wf_def by blast
  with nf have flt: "peekcb_fill pcb < cb_len pcb" by simp
  have fill': "peekcb_fill ?pcb' = peekcb_fill pcb + 1" by (simp add: peekcb_fill_def)
  have slot': "ring_slot ?pcb' i = ring_slot pcb i" for i by (simp add: ring_slot_def)
  have wi: "cb_wi pcb = cb_ri pcb + peekcb_fill pcb" by (simp add: peekcb_fill_def)
  have old: "(cb_mem pcb)[ring_slot pcb (cb_wi pcb) := r] ! ring_slot pcb (cb_ri pcb + of_nat i) =
             cb_mem pcb ! ring_slot pcb (cb_ri pcb + of_nat i)"
    if i: "i < unat (peekcb_fill pcb)" for i
  proof -
    let ?j = "peekcb_fill pcb - of_nat i"
    have ile: "(of_nat i :: 32 word) \<le> peekcb_fill pcb" and ilt: "(of_nat i :: 32 word) < peekcb_fill pcb"
      using i by (simp_all add: word_le_nat_alt word_less_nat_alt unat_of_nat take_bit_eq_mod)
    have j0: "?j \<noteq> 0" using ilt by simp
    have "?j \<le> peekcb_fill pcb" using ile by (simp add: word_sub_le)
    also have "\<dots> < cb_len pcb" using flt .
    finally have jlt: "?j < cb_len pcb" .
    have "cb_wi pcb = (cb_ri pcb + of_nat i) + ?j" by (simp add: wi)
    then have "ring_slot pcb (cb_wi pcb) \<noteq> ring_slot pcb (cb_ri pcb + of_nat i)"
      using slot_distinct [OF wf j0 jlt, of "cb_ri pcb + of_nat i"] by simp
    then show ?thesis by simp
  qed
  have new: "(cb_mem pcb)[ring_slot pcb (cb_wi pcb) := r] !
               ring_slot pcb (cb_ri pcb + of_nat (unat (peekcb_fill pcb))) = r"
    using slot_in_range [OF wf, of "cb_wi pcb"] by (simp add: wi)
  have "ring_list ?pcb' =
        map (\<lambda>i. (cb_mem pcb)[ring_slot pcb (cb_wi pcb) := r] ! ring_slot pcb (cb_ri pcb + of_nat i))
          [0 ..< unat (peekcb_fill pcb) + 1]"
    by (simp add: ring_list_def fill' slot' fl(2))
  also have "\<dots> = map (\<lambda>i. cb_mem pcb ! ring_slot pcb (cb_ri pcb + of_nat i))
                      [0 ..< unat (peekcb_fill pcb)] @ [r]"
    using old new by simp
  finally show "ring_list (snd (peekcb_put pcb [r])) = ring_list pcb @ [r]"
    by (simp add: put ring_list_def)
  show "peekcb_fill (snd (peekcb_put pcb [r])) = peekcb_fill pcb + 1"
    by (simp add: put fill')
  have "peekcb_fill pcb + 1 \<le> cb_len pcb"
    using flt by (rule inc_le)
  then show "ring_wf k (snd (peekcb_put pcb [r]))"
    using k len lm by (simp add: put ring_wf_def fill')
qed

lemma record_move_fst: "fst (record_move r) = r"
  by (simp add: record_move_def)

lemmas mem_eval = malloc_def free_def cstr_def strdup_def record_move_def record_copy_def
  record_freedata_def record_base_copy_def record_base_freedata_def record_zero_def
lemmas qcbor_eval = qcbor_init_def cbor_head_len_def cbor_int_len_def out_append_def
  nesting_increment_def qcbor_add_def qcbor_open_def qcbor_close_def qcbor_get_error_state_def
  qcbor_finish_def add_text_to_map_n_def add_double_to_map_n_def add_uint64_to_map_n_def
  add_int64_to_map_n_def qcbor_result_def enc_store_def
lemmas senml_eval = senml_enc_init_def senml_enc_put_def senml_enc_close_def senml_units_def
lemmas ring_eval = peekcb_init_def peekcb_fill_def ring_slot_def peekcb_put_def peekcb_get_def
  peekcb_next_def peekcb_peek_def ring_list_def ring_wf_def
lemmas weak_congs = let_weak_cong prod.case_cong_weak option.case_cong_weak
  list.case_cong_weak sum.case_cong_weak if_weak_cong

lemma strip_zero_bits_2: "strip_zero_bits 2 = 1"
  by (simp add: strip_zero_bits.simps [of 2] strip_zero_bits.simps [of 1])

lemma strip_zero_bits_4: "strip_zero_bits 4 = 1"
  by (simp add: strip_zero_bits.simps [of 4] strip_zero_bits.simps [of 2]
        strip_zero_bits.simps [of 1])

lemma flush_loop_numeral:
  "flush_loop (numeral n) rs r flushed h = flush_loop (Suc (pred_numeral n)) rs r flushed h"
  by (simp only: numeral_eq_Suc)

lemma flush_simulate_loop_numeral:
  "flush_simulate_loop (numeral n) rs r it flushed h =
   flush_simulate_loop (Suc (pred_numeral n)) rs r it flushed h"
  by (simp only: numeral_eq_Suc)

lemmas recser_eval = recser_zero_def recser_init_def recser_put_def flush_simulate_round_def
  recser_flush_simulate_def recser_flush_def flush_loop_numeral flush_simulate_loop_numeral
  strip_zero_bits_2 strip_zero_bits_4
lemmas all_eval = recser_eval ring_eval senml_eval qcbor_eval mem_eval Let_def

lemma rs0_value:
  "rs0 =
     \<lparr>rs_buf = \<lparr>ub_ptr = 1, ub_len = 64\<rparr>,
      rs_cb = \<lparr>cb_a = 16, cb_mem = replicate 2 record_zero, cb_len = 2, cb_ri = 0, cb_wi = 0\<rparr>,
      rs_enc = \<lparr>enc_buf = \<lparr>ub_ptr = 0, ub_len = 60\<rparr>,
                cbor_ctx = \<lparr>out_buf = \<lparr>ub_ptr = 0, ub_len = 60\<rparr>, data_len = 0,
                            out_err = False, nesting = [(False, 0), (False, 1)],
                            u_error = QCBOR_SUCCESS\<rparr>\<rparr>,
      fit_cnt = 0, rs_base = \<lparr>base_name = 0\<rparr>\<rparr>"
  "h0 = \<lparr>h_mem = [1 \<mapsto> Buf 64 0, 2 \<mapsto> Buf 2 0, 3 \<mapsto> Buf 64 0, 16 \<mapsto> Arr 2],
          h_brk = 17, h_plan = [], h_junk = 0xBAD\<rparr>"
  by (simp_all add: rs0_def h0_def init0_def heap0_def all_eval)

lemma recser_swap_invalid:
  "ub_ptr (rs_buf rs) = 0 \<Longrightarrow> recser_swap rs out h = (- EINVAL, out, rs, h)"
  by (simp add: recser_swap_def)

lemma recser_put_invalid:
  "ub_ptr (rs_buf rs) = 0 \<Longrightarrow> recser_put rs (Some r) h = (- EINVAL, Some r, rs, h)"
  by (simp add: recser_put_def)

text \<open>The outcomes of \<open>recser_put\<close> on a valid serializer.\<close>

lemma recser_put_valid:
  assumes valid: "ub_ptr (rs_buf rs) \<noteq> 0"
    and wf: "ring_wf k (rs_cb rs)"
    and enc: "senml_enc_put (rs_enc rs) r h = (ret, enc, h1)"
    and put: "recser_put rs (Some r) h = (res, rec', rs', h')"
  shows "(peekcb_fill (rs_cb rs) = cb_len (rs_cb rs) \<longrightarrow>
            res = - ENOSPC \<and> rec' = Some r \<and> rs' = rs \<and> h' = h) \<and>
         (peekcb_fill (rs_cb rs) \<noteq> cb_len (rs_cb rs) \<and> ret = - ENOSPC \<and> fit_cnt rs = 0 \<longrightarrow>
            res = - ENOBUFS \<and> rec' = Some r \<and> rs_cb rs' = rs_cb rs \<and> fit_cnt rs' = 0) \<and>
         (peekcb_fill (rs_cb rs) \<noteq> cb_len (rs_cb rs) \<and> ret = - ENOSPC \<and> fit_cnt rs \<noteq> 0 \<longrightarrow>
            res = - EAGAIN \<and> rec' = Some (snd (record_move r)) \<and>
            ring_list (rs_cb rs') = ring_list (rs_cb rs) @ [r] \<and> fit_cnt rs' = fit_cnt rs) \<and>
         (peekcb_fill (rs_cb rs) \<noteq> cb_len (rs_cb rs) \<and> ret = 0 \<longrightarrow>
            res = 0 \<and> rec' = Some (snd (record_move r)) \<and>
            ring_list (rs_cb rs') = ring_list (rs_cb rs) @ [r] \<and> fit_cnt rs' = fit_cnt rs + 1) \<and>
         (peekcb_fill (rs_cb rs) \<noteq> cb_len (rs_cb rs) \<and> ret \<noteq> 0 \<and> ret \<noteq> - ENOSPC \<longrightarrow>
            res = - EINVAL \<and> rec' = Some r \<and> rs_cb rs' = rs_cb rs \<and> fit_cnt rs' = fit_cnt rs) \<and>
         (rec_type r = RECORDTYPE_STRING \<longrightarrow> rec_val (snd (record_move r)) = 0)"
proof (cases "peekcb_fill (rs_cb rs) = cb_len (rs_cb rs)")
  case True
  then show ?thesis
    using valid put by (simp add: recser_put_def record_move_def)
next
  case False
  note rl = ring_list_put(1) [OF wf False, of r]
  have mv: "fst (record_move r) = r" by (rule record_move_fst)
  have "recser_put rs (Some r) h =
          (if ret = - ENOSPC then
             (if fit_cnt rs = 0 then (- ENOBUFS, Some r, rs\<lparr>rs_enc := enc\<rparr>, h1)
              else (- EAGAIN, Some (snd (record_move r)),
                    rs\<lparr>rs_enc := enc, rs_cb := snd (peekcb_put (rs_cb rs) [r])\<rparr>, h1))
           else if ret \<noteq> 0 then (- EINVAL, Some r, rs\<lparr>rs_enc := enc\<rparr>, h1)
           else (0, Some (snd (record_move r)),
                 rs\<lparr>rs_enc := enc, rs_cb := snd (peekcb_put (rs_cb rs) [r]),
                    fit_cnt := fit_cnt rs + 1\<rparr>, h1))"
    using valid False enc by (simp add: recser_put_def record_move_def)
  with put have eq: "(res, rec', rs', h') =
          (if ret = - ENOSPC then
             (if fit_cnt rs = 0 then (- ENOBUFS, Some r, rs\<lparr>rs_enc := enc\<rparr>, h1)
              else (- EAGAIN, Some (snd (record_move r)),
                    rs\<lparr>rs_enc := enc, rs_cb := snd (peekcb_put (rs_cb rs) [r])\<rparr>, h1))
           else if ret \<noteq> 0 then (- EINVAL, Some r, rs\<lparr>rs_enc := enc\<rparr>, h1)
           else (0, Some (snd (record_move r)),
                 rs\<lparr>rs_enc := enc, rs_cb := snd (peekcb_put (rs_cb rs) [r]),
                    fit_cnt := fit_cnt rs + 1\<rparr>, h1))" by simp
  have c2: "ret = - ENOSPC \<and> fit_cnt rs = 0 \<longrightarrow>
            res = - ENOBUFS \<and> rec' = Some r \<and> rs_cb rs' = rs_cb rs \<and> fit_cnt rs' = 0"
    using eq by auto
  have c3: "ret = - ENOSPC \<and> fit_cnt rs \<noteq> 0 \<longrightarrow>
            res = - EAGAIN \<and> rec' = Some (snd (record_move r)) \<and>
            ring_list (rs_cb rs') = ring_list (rs_cb rs) @ [r] \<and> fit_cnt rs' = fit_cnt rs"
    using eq rl by auto
  have c4: "ret = 0 \<longrightarrow>
            res = 0 \<and> rec' = Some (snd (record_move r)) \<and>
            ring_list (rs_cb rs') = ring_list (rs_cb rs) @ [r] \<and> fit_cnt rs' = fit_cnt rs + 1"
    using eq rl by auto
  have c5: "ret \<noteq> 0 \<and> ret \<noteq> - ENOSPC \<longrightarrow>
            res = - EINVAL \<and> rec' = Some r \<and> rs_cb rs' = rs_cb rs \<and> fit_cnt rs' = fit_cnt rs"
    using eq by auto
  have c6: "rec_type r = RECORDTYPE_STRING \<longrightarrow> rec_val (snd (record_move r)) = 0"
    by (simp add: record_move_def)
  from False c2 c3 c4 c5 c6 show ?thesis by blast
qed

text \<open>
  Claim C1. For a serializer with a ring of \<open>2^k\<close> slots and a record \<open>r\<close>, whatever the
  simulated \<open>senml_enc_put\<close> returns (\<open>ret\<close>): an invalidated serializer (no buffer) returns
  \<open>-EINVAL\<close> and changes nothing, and on a valid one \<open>recser_put\<close> follows the precedence of
  the specification: with a full ring it returns \<open>-ENOSPC\<close>, the serializer and the heap are
  unchanged and the caller keeps the record; otherwise, when the simulation reports
  \<open>-ENOSPC\<close> and \<open>fit_cnt\<close> is 0 it returns \<open>-ENOBUFS\<close> and the caller keeps the record;
  when the simulation reports \<open>-ENOSPC\<close> and \<open>fit_cnt\<close> is not 0 the record is queued
  behind the others, \<open>fit_cnt\<close> stays, the caller's record is the moved-from one and
  \<open>-EAGAIN\<close> is returned; when the simulation succeeds the record is queued, \<open>fit_cnt\<close>
  grows by 1 and 0 is returned; on any other result of the simulation \<open>-EINVAL\<close> is
  returned and the caller keeps the record. In the moved-from record of a string record
  the pointer is \<open>NULL\<close>: the payload belongs to the serializer.
\<close>

theorem recser_put_outcomes:
  assumes wf: "ring_wf k (rs_cb rs)"
    and enc: "senml_enc_put (rs_enc rs) r h = (ret, enc, h1)"
    and put: "recser_put rs (Some r) h = (res, rec', rs', h')"
  shows "(ub_ptr (rs_buf rs) = 0 \<longrightarrow>
            res = - EINVAL \<and> rec' = Some r \<and> rs' = rs \<and> h' = h) \<and>
         (ub_ptr (rs_buf rs) \<noteq> 0 \<longrightarrow>
          (peekcb_fill (rs_cb rs) = cb_len (rs_cb rs) \<longrightarrow>
             res = - ENOSPC \<and> rec' = Some r \<and> rs' = rs \<and> h' = h) \<and>
          (peekcb_fill (rs_cb rs) \<noteq> cb_len (rs_cb rs) \<and> ret = - ENOSPC \<and> fit_cnt rs = 0 \<longrightarrow>
             res = - ENOBUFS \<and> rec' = Some r \<and> rs_cb rs' = rs_cb rs \<and> fit_cnt rs' = 0) \<and>
          (peekcb_fill (rs_cb rs) \<noteq> cb_len (rs_cb rs) \<and> ret = - ENOSPC \<and> fit_cnt rs \<noteq> 0 \<longrightarrow>
             res = - EAGAIN \<and> rec' = Some (snd (record_move r)) \<and>
             ring_list (rs_cb rs') = ring_list (rs_cb rs) @ [r] \<and> fit_cnt rs' = fit_cnt rs) \<and>
          (peekcb_fill (rs_cb rs) \<noteq> cb_len (rs_cb rs) \<and> ret = 0 \<longrightarrow>
             res = 0 \<and> rec' = Some (snd (record_move r)) \<and>
             ring_list (rs_cb rs') = ring_list (rs_cb rs) @ [r] \<and> fit_cnt rs' = fit_cnt rs + 1) \<and>
          (peekcb_fill (rs_cb rs) \<noteq> cb_len (rs_cb rs) \<and> ret \<noteq> 0 \<and> ret \<noteq> - ENOSPC \<longrightarrow>
             res = - EINVAL \<and> rec' = Some r \<and> rs_cb rs' = rs_cb rs \<and> fit_cnt rs' = fit_cnt rs) \<and>
          (rec_type r = RECORDTYPE_STRING \<longrightarrow> rec_val (snd (record_move r)) = 0))"
proof (rule conjI)
  show "ub_ptr (rs_buf rs) = 0 \<longrightarrow>
          res = - EINVAL \<and> rec' = Some r \<and> rs' = rs \<and> h' = h"
  proof
    assume "ub_ptr (rs_buf rs) = 0"
    from put recser_put_invalid [OF this, of r h]
    show "res = - EINVAL \<and> rec' = Some r \<and> rs' = rs \<and> h' = h" by simp
  qed
next
  show "ub_ptr (rs_buf rs) \<noteq> 0 \<longrightarrow>
         ((peekcb_fill (rs_cb rs) = cb_len (rs_cb rs) \<longrightarrow>
             res = - ENOSPC \<and> rec' = Some r \<and> rs' = rs \<and> h' = h) \<and>
          (peekcb_fill (rs_cb rs) \<noteq> cb_len (rs_cb rs) \<and> ret = - ENOSPC \<and> fit_cnt rs = 0 \<longrightarrow>
             res = - ENOBUFS \<and> rec' = Some r \<and> rs_cb rs' = rs_cb rs \<and> fit_cnt rs' = 0) \<and>
          (peekcb_fill (rs_cb rs) \<noteq> cb_len (rs_cb rs) \<and> ret = - ENOSPC \<and> fit_cnt rs \<noteq> 0 \<longrightarrow>
             res = - EAGAIN \<and> rec' = Some (snd (record_move r)) \<and>
             ring_list (rs_cb rs') = ring_list (rs_cb rs) @ [r] \<and> fit_cnt rs' = fit_cnt rs) \<and>
          (peekcb_fill (rs_cb rs) \<noteq> cb_len (rs_cb rs) \<and> ret = 0 \<longrightarrow>
             res = 0 \<and> rec' = Some (snd (record_move r)) \<and>
             ring_list (rs_cb rs') = ring_list (rs_cb rs) @ [r] \<and> fit_cnt rs' = fit_cnt rs + 1) \<and>
          (peekcb_fill (rs_cb rs) \<noteq> cb_len (rs_cb rs) \<and> ret \<noteq> 0 \<and> ret \<noteq> - ENOSPC \<longrightarrow>
             res = - EINVAL \<and> rec' = Some r \<and> rs_cb rs' = rs_cb rs \<and> fit_cnt rs' = fit_cnt rs) \<and>
          (rec_type r = RECORDTYPE_STRING \<longrightarrow> rec_val (snd (record_move r)) = 0))"
  proof
    assume valid: "ub_ptr (rs_buf rs) \<noteq> 0"
    show "(peekcb_fill (rs_cb rs) = cb_len (rs_cb rs) \<longrightarrow>
            res = - ENOSPC \<and> rec' = Some r \<and> rs' = rs \<and> h' = h) \<and>
         (peekcb_fill (rs_cb rs) \<noteq> cb_len (rs_cb rs) \<and> ret = - ENOSPC \<and> fit_cnt rs = 0 \<longrightarrow>
            res = - ENOBUFS \<and> rec' = Some r \<and> rs_cb rs' = rs_cb rs \<and> fit_cnt rs' = 0) \<and>
         (peekcb_fill (rs_cb rs) \<noteq> cb_len (rs_cb rs) \<and> ret = - ENOSPC \<and> fit_cnt rs \<noteq> 0 \<longrightarrow>
            res = - EAGAIN \<and> rec' = Some (snd (record_move r)) \<and>
            ring_list (rs_cb rs') = ring_list (rs_cb rs) @ [r] \<and> fit_cnt rs' = fit_cnt rs) \<and>
         (peekcb_fill (rs_cb rs) \<noteq> cb_len (rs_cb rs) \<and> ret = 0 \<longrightarrow>
            res = 0 \<and> rec' = Some (snd (record_move r)) \<and>
            ring_list (rs_cb rs') = ring_list (rs_cb rs) @ [r] \<and> fit_cnt rs' = fit_cnt rs + 1) \<and>
         (peekcb_fill (rs_cb rs) \<noteq> cb_len (rs_cb rs) \<and> ret \<noteq> 0 \<and> ret \<noteq> - ENOSPC \<longrightarrow>
            res = - EINVAL \<and> rec' = Some r \<and> rs_cb rs' = rs_cb rs \<and> fit_cnt rs' = fit_cnt rs) \<and>
         (rec_type r = RECORDTYPE_STRING \<longrightarrow> rec_val (snd (record_move r)) = 0)"
      by (rule recser_put_valid [OF valid wf enc put])
  qed
qed

theorem recser_put_outcomes_witness:
  "ub_ptr (rs_buf rs0) \<noteq> 0 \<and> ring_wf 1 (rs_cb rs0) \<and>
   peekcb_fill (rs_cb rs0) \<noteq> cb_len (rs_cb rs0) \<and>
   fst (senml_enc_put (rs_enc rs0) light42 h0) = 0 \<and>
   fst (recser_put rs0 (Some light42) h0) = 0 \<and>
   fst (snd (recser_put rs0 (Some light42) h0)) = Some light42 \<and>
   ring_list (rs_cb rs0) = [] \<and>
   ring_list (rs_cb (fst (snd (snd (recser_put rs0 (Some light42) h0))))) = [light42] \<and>
   fit_cnt (fst (snd (snd (recser_put rs0 (Some light42) h0)))) = 1"
  using recser_put_outcomes
    [where rs = rs0 and k = 1 and r = light42 and h = h0
       and ret = "fst (senml_enc_put (rs_enc rs0) light42 h0)"
       and enc = "fst (snd (senml_enc_put (rs_enc rs0) light42 h0))"
       and ?h1.0 = "snd (snd (senml_enc_put (rs_enc rs0) light42 h0))"
       and res = "fst (recser_put rs0 (Some light42) h0)"
       and rec' = "fst (snd (recser_put rs0 (Some light42) h0))"
       and rs' = "fst (snd (snd (recser_put rs0 (Some light42) h0)))"
       and h' = "snd (snd (snd (recser_put rs0 (Some light42) h0)))"]
  by (simp add: rs0_value light42_def all_eval)
















text \<open>The paths of \<open>recser_swap\<close>, by the results of the calls it makes.\<close>

lemma recser_swap_nofit:
  assumes "ub_ptr (rs_buf rs) \<noteq> 0" and "fit_cnt rs = 0" and "ub_ptr out \<noteq> 0"
    and "I = senml_enc_init 0 (ub_len out - ARRAY_MAX_BYTES) (Some (rs_base rs)) h"
    and "F = recser_flush_simulate (rs\<lparr>rs_buf := out, rs_enc := fst (snd I)\<rparr>)
               (peekcb_fill (rs_cb rs)) (snd (snd I))"
  shows "recser_swap rs out h =
           (if peekcb_fill (rs_cb rs) \<noteq> 0
            then (- EAGAIN, (rs_buf rs)\<lparr>ub_len := 0\<rparr>,
                  (fst (snd F))\<lparr>fit_cnt := word_of_int (fst F)\<rparr>, snd (snd F))
            else (0, (rs_buf rs)\<lparr>ub_len := 0\<rparr>, rs\<lparr>rs_buf := out, rs_enc := fst (snd I)\<rparr>,
                  snd (snd I)))"
  using assms(1-3) unfolding assms(4,5)
  by (simp add: recser_swap_def Let_def case_prod_beta)

lemma recser_swap_nofit_null:
  assumes "ub_ptr (rs_buf rs) \<noteq> 0" and "fit_cnt rs = 0" and "ub_ptr out = 0"
    and "I = senml_enc_init 0 0xFFFF (Some (rs_base rs)) h"
    and "E = recser_flush (rs\<lparr>rs_buf := out, rs_enc := fst (snd I)\<rparr>)
               (peekcb_fill (rs_cb rs)) (snd (snd I))"
  shows "recser_swap rs out h =
           (0, (rs_buf rs)\<lparr>ub_len := 0\<rparr>, (fst (snd E))\<lparr>fit_cnt := 0\<rparr>,
            record_base_freedata (rs_base (fst (snd E)))
              (free (cb_a (rs_cb (fst (snd E)))) (snd (snd E))))"
  using assms(1-3) unfolding assms(4,5)
  by (simp add: recser_swap_def Let_def case_prod_beta)

lemma recser_swap_commit:
  assumes "ub_ptr (rs_buf rs) \<noteq> 0" and "fit_cnt rs \<noteq> 0"
    and "A = senml_enc_init (ub_ptr (rs_buf rs)) (ub_len (rs_buf rs)) (Some (rs_base rs)) h"
    and "B = recser_flush (rs\<lparr>rs_enc := fst (snd A)\<rparr>) (fit_cnt rs) (snd (snd A))"
    and "C = senml_enc_close (rs_enc (fst (snd B))) (snd (snd B))"
    and "out' = (rs_buf (fst (snd B)))
                  \<lparr>ub_len := (case fst (snd C) of Some n \<Rightarrow> n
                               | None \<Rightarrow> h_junk (snd (snd (snd C))))\<rparr>"
    and "rs3 = (fst (snd B))\<lparr>fit_cnt := 0, rs_buf := out\<rparr>"
    and "h4 = snd (snd (snd C))"
  shows "ub_ptr out = 0 \<Longrightarrow>
           recser_swap rs out h =
             (let I = senml_enc_init 0 0xFFFF (Some (rs_base rs3)) h4;
                  E = recser_flush (rs3\<lparr>rs_enc := fst (snd I)\<rparr>) (peekcb_fill (rs_cb rs3))
                        (snd (snd I))
              in (0, out', (fst (snd E))\<lparr>fit_cnt := 0\<rparr>,
                  record_base_freedata (rs_base (fst (snd E)))
                    (free (cb_a (rs_cb (fst (snd E)))) (snd (snd E)))))"
    and "ub_ptr out \<noteq> 0 \<Longrightarrow>
           recser_swap rs out h =
             (let I = senml_enc_init 0 (ub_len out - ARRAY_MAX_BYTES) (Some (rs_base rs3)) h4;
                  F = recser_flush_simulate (rs3\<lparr>rs_enc := fst (snd I)\<rparr>)
                        (peekcb_fill (rs_cb rs3)) (snd (snd I))
              in if peekcb_fill (rs_cb rs3) \<noteq> 0
                 then (- EAGAIN, out', (fst (snd F))\<lparr>fit_cnt := word_of_int (fst F)\<rparr>,
                       snd (snd F))
                 else (0, out', rs3\<lparr>rs_enc := fst (snd I)\<rparr>, snd (snd I)))"
  using assms(1,2) unfolding assms(3-8)
  by (simp_all add: recser_swap_def Let_def case_prod_beta word_gt_0)




lemmas recser_swap_rules =
  recser_swap_commit [OF _ _ refl refl refl refl refl refl]
  recser_swap_nofit [OF _ _ _ refl refl]
  recser_swap_nofit_null [OF _ _ _ refl refl]

text \<open>The first trace up to the call of \<open>recser_swap\<close>: the first record fits the buffer,
  the two string records do not and are queued behind it.\<close>

lemma c5_s3_value:
  "c5_s3 =
     (- EAGAIN, Some ((msg_at 6)\<lparr>rec_val := 0\<rparr>),
      \<lparr>rs_buf = \<lparr>ub_ptr = 1, ub_len = 64\<rparr>,
       rs_cb = \<lparr>cb_a = 16,
                cb_mem = (replicate 4 record_zero)[0 := light42, 1 := msg_at 5, 2 := msg_at 6],
                cb_len = 4, cb_ri = 0, cb_wi = 3\<rparr>,
       rs_enc = \<lparr>enc_buf = \<lparr>ub_ptr = 0, ub_len = 60\<rparr>,
                 cbor_ctx = \<lparr>out_buf = \<lparr>ub_ptr = 0, ub_len = 60\<rparr>, data_len = 40,
                             out_err = True, nesting = [(False, 3), (False, 1)],
                             u_error = QCBOR_ERR_BUFFER_TOO_SMALL\<rparr>\<rparr>,
       fit_cnt = 1, rs_base = \<lparr>base_name = 0\<rparr>\<rparr>,
      \<lparr>h_mem = [1 \<mapsto> Buf 64 0, 5 \<mapsto> Str (replicate 65536 CHR ''x''), 6 \<mapsto> Str ''c'',
                16 \<mapsto> Arr 4],
       h_brk = 17, h_plan = [], h_junk = 0\<rparr>)"
  by (simp add: c5_s3_def c5_s2_def c5_s1_def c5_s0_def init_c5_def heap_c5_def light42_def
        msg_at_def all_eval)

lemma c5_puts:
  "fst c5_s0 = 0 \<and> fst c5_s1 = 0 \<and> fst c5_s2 = - EAGAIN"
  by (simp add: c5_s2_def c5_s1_def c5_s0_def init_c5_def heap_c5_def light42_def
        msg_at_def all_eval)

lemma upt_0_3: "[0 ..< 3::nat] = [0, 1, 2]"
  by (simp add: eval_nat_numeral)

lemma c5_queue:
  "fst c5_s3 = - EAGAIN \<and>
   ring_list (rs_cb (fst (snd (snd c5_s3)))) = [light42, msg_at 5, msg_at 6]"
  unfolding c5_s3_value fst_conv snd_conv
  by (simp add: ring_list_def peekcb_fill_def ring_slot_def upt_0_3)

lemma c5_swap:
  "fst c5_s4 = 0 \<and>
   fst (snd c5_s4) = \<lparr>ub_ptr = 1, ub_len = 25\<rparr> \<and>
   rs_buf c5_rs4 = \<lparr>ub_ptr = 0, ub_len = 0\<rparr> \<and>
   peekcb_fill (rs_cb c5_rs4) = 1 \<and>
   cb_mem (rs_cb c5_rs4) ! ring_slot (rs_cb c5_rs4) (cb_ri (rs_cb c5_rs4)) = msg_at 6 \<and>
   h_mem c5_h4 5 = None \<and>
   h_mem c5_h4 6 = Some (Str ''c'') \<and>
   h_mem c5_h4 16 = None"
  unfolding c5_rs4_def c5_h4_def c5_s4_def c5_s3_value fst_conv snd_conv
  by (simp add: recser_swap_rules light42_def msg_at_def all_eval cong: let_weak_cong)

text \<open>
  Claim C5, evaluated on the code. \<open>recser_swap\<close> with a \<open>NULL\<close> buffer returns 0, frees the
  ring, and every later \<open>recser_put\<close> or \<open>recser_swap\<close> returns \<open>-EINVAL\<close>. But it does not
  drain all the queued records: the encoder it flushes them into has a capacity of \<open>0xFFFF\<close>
  bytes, and \<open>_recser_flush\<close> leaves its loop at the first record that does not fit. In
  the first trace three records are queued (results 0, \<open>-EAGAIN\<close>, \<open>-EAGAIN\<close> of \<open>recser_put\<close>,
  the last two owning the strings at the addresses 5 and 6). The swap commits the first,
  takes the second off the ring and frees its string of 65536 characters, and stops there:
  the third record is still in the ring, whose array (address 16) is freed, and the string
  it owns at address 6 is never released.
\<close>

theorem recser_swap_null_leaves_records:
  "fst c5_s0 = 0 \<and> fst c5_s1 = 0 \<and> fst c5_s2 = - EAGAIN \<and> fst c5_s3 = - EAGAIN \<and>
   ring_list (rs_cb (fst (snd (snd c5_s3)))) = [light42, msg_at 5, msg_at 6] \<and>
   fst c5_s4 = 0 \<and>
   rs_buf c5_rs4 = \<lparr>ub_ptr = 0, ub_len = 0\<rparr> \<and>
   ring_list (rs_cb c5_rs4) = [msg_at 6] \<and>
   h_mem c5_h4 5 = None \<and>
   h_mem c5_h4 6 = Some (Str ''c'') \<and>
   h_mem c5_h4 16 = None \<and>
   recser_put c5_rs4 (Some light42) c5_h4 = (- EINVAL, Some light42, c5_rs4, c5_h4) \<and>
   recser_swap c5_rs4 \<lparr>ub_ptr = 3, ub_len = 64\<rparr> c5_h4 =
     (- EINVAL, \<lparr>ub_ptr = 3, ub_len = 64\<rparr>, c5_rs4, c5_h4)"
proof -
  have inv: "ub_ptr (rs_buf c5_rs4) = 0" using c5_swap by simp
  have rl: "ring_list (rs_cb c5_rs4) = [msg_at 6]"
    using c5_swap by (simp add: ring_list_def)
  from c5_puts c5_queue c5_swap rl recser_put_invalid [OF inv] recser_swap_invalid [OF inv]
  show ?thesis by simp
qed

text \<open>The second trace up to the second call of \<open>recser_swap\<close>: with the buffer of 2 bytes
  the simulation has a capacity of \<open>2 - 4\<close> bytes in \<open>size_t\<close>, and the record is counted as
  fitting.\<close>

lemma c2_s2_value:
  "c2_s2 =
     (0, Some light42,
      \<lparr>rs_buf = \<lparr>ub_ptr = 2, ub_len = 2\<rparr>,
       rs_cb = \<lparr>cb_a = 16, cb_mem = (replicate 2 record_zero)[0 := light42], cb_len = 2,
                cb_ri = 0, cb_wi = 1\<rparr>,
       rs_enc = \<lparr>enc_buf = \<lparr>ub_ptr = 0, ub_len = 2 - ARRAY_MAX_BYTES\<rparr>,
                 cbor_ctx = \<lparr>out_buf = \<lparr>ub_ptr = 0, ub_len = 2 - ARRAY_MAX_BYTES\<rparr>,
                             data_len = 24, out_err = False,
                             nesting = [(False, 1), (False, 1)], u_error = QCBOR_SUCCESS\<rparr>\<rparr>,
       fit_cnt = 1, rs_base = \<lparr>base_name = 0\<rparr>\<rparr>,
      \<lparr>h_mem = [1 \<mapsto> Buf 64 0, 2 \<mapsto> Buf 2 0, 3 \<mapsto> Buf 64 0, 16 \<mapsto> Arr 2],
       h_brk = 17, h_plan = [], h_junk = 0xBAD\<rparr>)"
  unfolding c2_s2_def c2_s1_def rs0_value
  by (simp add: recser_swap_rules light42_def all_eval cong: let_weak_cong)

lemma c2_puts:
  "fst (recser_init recser_zero init0 heap0) = 0 \<and> fst c2_s1 = 0 \<and>
   fst (snd c2_s1) = \<lparr>ub_ptr = 1, ub_len = 0\<rparr>"
  unfolding c2_s1_def rs0_value
  by (simp add: init0_def heap0_def recser_swap_rules all_eval cong: let_weak_cong)

lemma c2_state:
  "fst c2_s2 = 0 \<and> rs_buf c2_rs = \<lparr>ub_ptr = 2, ub_len = 2\<rparr> \<and> fit_cnt c2_rs = 1 \<and>
   ring_list (rs_cb c2_rs) = [light42]"
  unfolding c2_rs_def c2_s2_value fst_conv snd_conv
  by (simp add: ring_list_def peekcb_fill_def ring_slot_def)

lemma c2_commit:
  "fst c2_init = 0 \<and>
   fst (senml_enc_put (fst (snd c2_init)) light42 (snd (snd c2_init))) = - ENOSPC \<and>
   fst (recser_flush (c2_rs\<lparr>rs_enc := fst (snd c2_init)\<rparr>) (fit_cnt c2_rs)
          (snd (snd c2_init))) = 0"
  unfolding c2_init_def c2_rs_def c2_h_def c2_s2_value fst_conv snd_conv
  by (simp add: light42_def all_eval)

lemma c2_swap:
  "fst c2_s3 = 0 \<and>
   fst (snd c2_s3) = \<lparr>ub_ptr = 2, ub_len = 0xBAD\<rparr> \<and>
   rs_buf (fst (snd (snd c2_s3))) = \<lparr>ub_ptr = 3, ub_len = 64\<rparr> \<and>
   peekcb_fill (rs_cb (fst (snd (snd c2_s3)))) = 0 \<and>
   fit_cnt (fst (snd (snd c2_s3))) = 0"
  unfolding c2_s3_def c2_rs_def c2_h_def c2_s2_value fst_conv snd_conv
  by (simp add: recser_swap_rules light42_def all_eval cong: let_weak_cong)

text \<open>
  Claim C2, evaluated on the code. \<open>recser_init\<close> refuses a buffer of fewer than
  \<open>ARRAY_MAX_BYTES\<close> bytes, \<open>recser_swap\<close> does not: in the second trace the serializer is
  given a buffer of 2 bytes (result 0), and the capacity of its simulation, \<open>len - 4\<close>,
  wraps around. The record put next is counted as fitting (result 0, \<open>fit_cnt = 1\<close>, one
  record queued), although committing it to the buffer of 2 bytes gives \<open>-ENOSPC\<close>:
  \<open>_recser_flush\<close> of \<open>fit_cnt\<close> records returns 0, not \<open>fit_cnt\<close>. The second swap nevertheless
  returns 0; it hands back the buffer of 2 bytes with the indeterminate length that
  \<open>senml_enc_close\<close> left in \<open>enc_len\<close>, and the ring is empty: the record is lost.
\<close>

theorem recser_swap_small_buffer_overcounts:
  "fst (recser_init recser_zero init0 heap0) = 0 \<and> fst c2_s1 = 0 \<and> fst c2_s2 = 0 \<and>
   rs_buf c2_rs = \<lparr>ub_ptr = 2, ub_len = 2\<rparr> \<and> fit_cnt c2_rs = 1 \<and>
   ring_list (rs_cb c2_rs) = [light42] \<and>
   fst c2_init = 0 \<and>
   fst (senml_enc_put (fst (snd c2_init)) light42 (snd (snd c2_init))) = - ENOSPC \<and>
   fst (recser_flush (c2_rs\<lparr>rs_enc := fst (snd c2_init)\<rparr>) (fit_cnt c2_rs)
          (snd (snd c2_init))) = 0 \<and>
   fst c2_s3 = 0 \<and>
   fst (snd c2_s3) = \<lparr>ub_ptr = 2, ub_len = h_junk c2_h\<rparr> \<and>
   ring_list (rs_cb (fst (snd (snd c2_s3)))) = [] \<and>
   fit_cnt (fst (snd (snd c2_s3))) = 0"
proof -
  have j: "h_junk c2_h = 0xBAD" unfolding c2_h_def c2_s2_value by simp
  have rl: "ring_list (rs_cb (fst (snd (snd c2_s3)))) = []"
    using c2_swap by (simp add: ring_list_def)
  from c2_puts c2_state c2_commit c2_swap rl j show ?thesis by simp
qed

section \<open>Logger\<close>

text \<open>The paths of \<open>_logg_put\<close> that the third trace takes.\<close>

lemma logg_put_default:
  assumes "C = record_copy r h" and "fst C = 0"
    and "P = recser_put (lg_ser logger) (Some (fst (snd C))) (snd (snd C))"
    and "fst P \<noteq> - EAGAIN" and "fst P \<noteq> - ENOSPC"
  shows "logg_put logger r e h =
           logg_put_end logger r (fst P) \<lparr>ub_ptr = 0, ub_len = 0\<rparr>
             (case fst (snd P) of Some n \<Rightarrow> n | None \<Rightarrow> fst (snd C))
             (fst (snd (snd P))) e (snd (snd (snd P)))"
  using assms(2,4,5) unfolding assms(1,3)
  by (simp add: logg_put_def Let_def case_prod_beta)

lemma logg_put_nomem:
  assumes "C = record_copy r h" and "fst C = 0"
    and "P = recser_put (lg_ser logger) (Some (fst (snd C))) (snd (snd C))"
    and "fst P = - EAGAIN \<or> fst P = - ENOSPC"
    and "M = malloc (Buf (unat (lg_encbuf_size logger)) 0) (snd (snd (snd P)))"
    and "fst M = 0"
  shows "logg_put logger r e h =
           logg_put_end logger r (- ENOMEM) \<lparr>ub_ptr = 0, ub_len = lg_encbuf_size logger\<rparr>
             (case fst (snd P) of Some n \<Rightarrow> n | None \<Rightarrow> fst (snd C))
             (fst (snd (snd P))) e (snd M)"
  using assms(2,4,6) unfolding assms(1,3,5)
  by (simp add: logg_put_def Let_def case_prod_beta)

lemmas logg_put_rules =
  logg_put_default [OF refl _ refl]
  logg_put_nomem [OF refl _ refl _ refl]

lemmas logg_eval = logg_create_def logg_put_end_def

text \<open>The third trace: the logger is created and takes the first record, which fits its
  buffer.\<close>

lemma c6_s0_value:
  "c6_s0 =
     (0,
      Some \<lparr>lg_ser =
              \<lparr>rs_buf = \<lparr>ub_ptr = 17, ub_len = 40\<rparr>,
               rs_cb = \<lparr>cb_a = 18, cb_mem = replicate 2 record_zero, cb_len = 2, cb_ri = 0,
                        cb_wi = 0\<rparr>,
               rs_enc = \<lparr>enc_buf = \<lparr>ub_ptr = 0, ub_len = 36\<rparr>,
                         cbor_ctx = \<lparr>out_buf = \<lparr>ub_ptr = 0, ub_len = 36\<rparr>, data_len = 0,
                                     out_err = False, nesting = [(False, 0), (False, 1)],
                                     u_error = QCBOR_SUCCESS\<rparr>\<rparr>,
               fit_cnt = 0, rs_base = \<lparr>base_name = 0\<rparr>\<rparr>,
             lg_encbuf_size = 40\<rparr>,
      \<lparr>h_mem = [6 \<mapsto> Str ''c'', 16 \<mapsto> Obj, 17 \<mapsto> Buf 40 0, 18 \<mapsto> Arr 2],
       h_brk = 19, h_plan = [True, False], h_junk = 0\<rparr>)"
  by (simp add: c6_s0_def init_c6_def heap_c6_def logg_eval all_eval)

lemma c6_s1_value:
  "c6_s1 =
     (0, light42\<lparr>rec_val := 0\<rparr>,
      \<lparr>lg_ser =
         \<lparr>rs_buf = \<lparr>ub_ptr = 17, ub_len = 40\<rparr>,
          rs_cb = \<lparr>cb_a = 18, cb_mem = (replicate 2 record_zero)[0 := light42], cb_len = 2,
                   cb_ri = 0, cb_wi = 1\<rparr>,
          rs_enc = \<lparr>enc_buf = \<lparr>ub_ptr = 0, ub_len = 36\<rparr>,
                    cbor_ctx = \<lparr>out_buf = \<lparr>ub_ptr = 0, ub_len = 36\<rparr>, data_len = 24,
                                out_err = False, nesting = [(False, 1), (False, 1)],
                                u_error = QCBOR_SUCCESS\<rparr>\<rparr>,
          fit_cnt = 1, rs_base = \<lparr>base_name = 0\<rparr>\<rparr>,
        lg_encbuf_size = 40\<rparr>,
      env_c6,
      \<lparr>h_mem = [6 \<mapsto> Str ''c'', 16 \<mapsto> Obj, 17 \<mapsto> Buf 40 0, 18 \<mapsto> Arr 2],
       h_brk = 19, h_plan = [True, False], h_junk = 0\<rparr>)"
  unfolding c6_s1_def c6_s0_value fst_conv snd_conv option.sel
  by (simp add: light42_def logg_put_rules logg_eval all_eval)

lemma c6_s2_facts:
  "fst c6_s2 = - ENOMEM \<and> fst (snd c6_s2) = msg_at 6 \<and>
   peekcb_fill (rs_cb (lg_ser c6_lg2)) = 2 \<and>
   cb_mem (rs_cb (lg_ser c6_lg2)) !
     ring_slot (rs_cb (lg_ser c6_lg2)) (cb_ri (rs_cb (lg_ser c6_lg2))) = light42 \<and>
   cb_mem (rs_cb (lg_ser c6_lg2)) !
     ring_slot (rs_cb (lg_ser c6_lg2)) (cb_ri (rs_cb (lg_ser c6_lg2)) + 1) = msg_at 19 \<and>
   h_mem c6_h2 6 = Some (Str ''c'') \<and>
   h_mem c6_h2 19 = Some (Str ''c'')"
  unfolding c6_lg2_def c6_h2_def c6_s2_def c6_s1_value fst_conv snd_conv
  by (simp add: light42_def msg_at_def logg_put_rules logg_eval all_eval)

lemma upt_0_2: "[0 ..< 2::nat] = [0, 1]"
  by (simp add: eval_nat_numeral)

text \<open>
  Claim C6, evaluated on the code. A \<open>_logg_put\<close> that returns non-zero leaves the record
  of the caller as it was, and the payload of the caller is released only on success; but
  the deep copy that the logger made is not always freed. In the third trace the logger
  (queue of two records, buffer of 40 bytes) has taken a first record; the second one, a
  string record with its payload at address 6, is copied (the copy of the payload is at
  address 19), \<open>recser_put\<close> queues the copy and returns \<open>-EAGAIN\<close>, and the allocation of
  the new buffer fails. \<open>_logg_put\<close> returns \<open>-ENOMEM\<close> with the record of the caller
  untouched, but \<open>nrec\<close> was moved into the ring, so \<open>record_freedata(&nrec)\<close> frees nothing:
  the copy stays queued behind the first record and its payload stays allocated.
\<close>

theorem logg_put_nomem_keeps_copy:
  "fst c6_s0 = 0 \<and> fst c6_s1 = 0 \<and>
   h_mem (snd (snd (snd (snd c6_s1)))) 19 = None \<and>
   fst c6_s2 = - ENOMEM \<and>
   fst (snd c6_s2) = msg_at 6 \<and>
   h_mem c6_h2 6 = Some (Str ''c'') \<and>
   ring_list (rs_cb (lg_ser c6_lg2)) = [light42, msg_at 19] \<and>
   h_mem c6_h2 19 = Some (Str ''c'')"
proof -
  have rl: "ring_list (rs_cb (lg_ser c6_lg2)) = [light42, msg_at 19]"
    using c6_s2_facts by (simp add: ring_list_def upt_0_2)
  have a: "fst c6_s0 = 0" unfolding c6_s0_value by simp
  have b: "fst c6_s1 = 0 \<and> h_mem (snd (snd (snd (snd c6_s1)))) 19 = None"
    unfolding c6_s1_value by simp
  from a b rl c6_s2_facts show ?thesis by simp
qed

text \<open>
  Property X1. For every logger, record, environment and heap: a \<open>_logg_put\<close> that returns non-zero
  hands the record of the caller back as it was (the pointer to its payload included); a
  \<open>_logg_put\<close> that returns 0 has run \<open>record_freedata\<close> on it.
\<close>

theorem logg_put_failure_keeps_record:
  "(fst (logg_put logger r e h) \<noteq> 0 \<longrightarrow> fst (snd (logg_put logger r e h)) = r) \<and>
   (fst (logg_put logger r e h) = 0 \<longrightarrow> fst (snd (logg_put logger r e h)) = r\<lparr>rec_val := 0\<rparr>)"
  by (simp add: logg_put_def logg_put_end_def record_freedata_def Let_def case_prod_beta)

theorem logg_put_failure_keeps_record_witness:
  "fst c6_s2 \<noteq> 0 \<and> fst (snd c6_s2) = msg_at 6"
  using logg_put_failure_keeps_record
      [of "fst (snd (snd c6_s1))" "msg_at 6" "fst (snd (snd (snd c6_s1)))"
          "snd (snd (snd (snd c6_s1)))"]
    c6_s2_facts
  by (simp add: c6_s2_def [symmetric])

end
